theory Spec2Isabelle
  imports Complex_Main "HOL-Library.Multiset" "HOL-Library.Log_Nat"
begin

section \<open>Movie records\<close>

text \<open>
  A movie is a JSON object with the keys \<open>nome\<close>, \<open>avaliacao\<close>, \<open>diretor\<close>, \<open>duracao\<close>
  and \<open>streaming\<close>. The record type fixes this shape: a movie with a missing key is not
  a value of the type. Ratings are JSON numbers, which Python reads as floats (binary64
  numbers) or as integers; a rating is written here as the rational number it is, and the
  comparisons of ratings are the exact ones, in Python as here. The sum and the quotient of
  the mean rating are rounded the way binary64 rounds them (\<open>bin64\<close> below). The median,
  the percentage and the mean duration are written with the exact \<open>+\<close> and \<open>/\<close>: what
  is proved of them is the expression that is computed, before its rounding. A duration is
  the two-element array \<open>[hours, minutes]\<close> of integers.
\<close>

record filme =
  nome :: string
  avaliacao :: rat
  diretor :: string
  duracao :: "int \<times> int"
  streaming :: bool

section \<open>Python primitives\<close>

datatype py_error = ZeroDivisionError | IndexError | ValueError

definition bind_err :: "py_error + 'a \<Rightarrow> ('a \<Rightarrow> py_error + 'b) \<Rightarrow> py_error + 'b" where
  "bind_err m f = (case m of Inl e \<Rightarrow> Inl e | Inr v \<Rightarrow> f v)"

text \<open>\<open>a / b\<close>: true division raises on a zero divisor; this is the exact quotient.\<close>

definition py_truediv :: "rat \<Rightarrow> rat \<Rightarrow> py_error + rat" where
  "py_truediv a b = (if b = 0 then Inl ZeroDivisionError else Inr (a / b))"

text \<open>\<open>xs[i]\<close>: a negative index counts from the end, an index out of range raises.\<close>

definition py_getitem :: "'a list \<Rightarrow> int \<Rightarrow> py_error + 'a" where
  "py_getitem xs i =
     (if 0 \<le> i \<and> i < int (length xs) then Inr (xs ! nat i)
      else if i < 0 \<and> - int (length xs) \<le> i then Inr (xs ! nat (int (length xs) + i))
      else Inl IndexError)"

text \<open>
  \<open>max(xs, key=f)\<close> and \<open>min(xs, key=f)\<close>: one scan from the left that starts with the
  first item and replaces the item kept only when the next key is strictly greater
  (strictly smaller for \<open>min\<close>). An empty argument raises \<open>ValueError\<close>.
\<close>

fun max_scan :: "('a \<Rightarrow> 'k::linorder) \<Rightarrow> 'a \<Rightarrow> 'a list \<Rightarrow> 'a" where
  "max_scan f best [] = best"
| "max_scan f best (x # xs) = (if f x > f best then max_scan f x xs else max_scan f best xs)"

fun min_scan :: "('a \<Rightarrow> 'k::linorder) \<Rightarrow> 'a \<Rightarrow> 'a list \<Rightarrow> 'a" where
  "min_scan f best [] = best"
| "min_scan f best (x # xs) = (if f x < f best then min_scan f x xs else min_scan f best xs)"

definition py_max_key :: "('a \<Rightarrow> 'k::linorder) \<Rightarrow> 'a list \<Rightarrow> py_error + 'a" where
  "py_max_key f xs = (case xs of [] \<Rightarrow> Inl ValueError | x # ys \<Rightarrow> Inr (max_scan f x ys))"

definition py_min_key :: "('a \<Rightarrow> 'k::linorder) \<Rightarrow> 'a list \<Rightarrow> py_error + 'a" where
  "py_min_key f xs = (case xs of [] \<Rightarrow> Inl ValueError | x # ys \<Rightarrow> Inr (min_scan f x ys))"

text \<open>
  \<open>xs.sort(key=f, reverse=True)\<close> is a stable sort: the list is reversed, sorted
  stably by ascending key and reversed again, so that items with equal keys keep the order
  they had.
\<close>

definition sort_reverse :: "('a \<Rightarrow> 'k::linorder) \<Rightarrow> 'a list \<Rightarrow> 'a list" where
  "sort_reverse f xs = rev (sort_key f (rev xs))"

text \<open>
  \<open>Counter(xs)\<close> is a dictionary from items to counts that keeps insertion order: counting
  an item already present updates its count in place, a new item goes to the end. It is an
  association list here, since the order of \<open>items()\<close> matters.
\<close>

fun contar :: "'a \<Rightarrow> ('a \<times> nat) list \<Rightarrow> ('a \<times> nat) list" where
  "contar x [] = [(x, 1)]"
| "contar x ((k, c) # kcs) = (if k = x then (k, Suc c) # kcs else (k, c) # contar x kcs)"

definition Counter :: "'a list \<Rightarrow> ('a \<times> nat) list" where
  "Counter xs = foldl (\<lambda>c x. contar x c) [] xs"

text \<open>
  On floats, \<open>x // y\<close> is the floor of the quotient, \<open>x % y\<close> is what is left of \<open>x\<close>
  after that many \<open>y\<close>, and \<open>int(x)\<close> truncates towards zero.
\<close>

definition py_floordiv :: "rat \<Rightarrow> rat \<Rightarrow> py_error + rat" where
  "py_floordiv x y = (if y = 0 then Inl ZeroDivisionError else Inr (of_int \<lfloor>x / y\<rfloor>))"

definition py_mod :: "rat \<Rightarrow> rat \<Rightarrow> py_error + rat" where
  "py_mod x y = (if y = 0 then Inl ZeroDivisionError else Inr (x - y * of_int \<lfloor>x / y\<rfloor>))"

definition py_int :: "rat \<Rightarrow> int" where
  "py_int x = (if 0 \<le> x then \<lfloor>x\<rfloor> else \<lceil>x\<rceil>)"

section \<open>Binary floating point\<close>

text \<open>
  A Python float is an IEEE 754 binary64 number: a significand of 53 bits times a power
  of two, every operation returning the number nearest to the exact result and, of two
  equally near, the one whose significand is even. For a positive rational \<open>a\<close>,
  \<open>expoente a\<close> is the \<open>k\<close> with \<open>2^k \<le> a < 2^(k+1)\<close>, found from the number of bits
  of the integer part of \<open>a\<close>, or of \<open>1 / a\<close> when \<open>a < 1\<close>. The binary64 numbers from
  \<open>2^k\<close> to \<open>2^(k+1)\<close> are \<open>2^(k-52)\<close> apart; below \<open>2^-1022\<close> they stay \<open>2^-1074\<close>
  apart. \<open>bin64 x\<close> is the multiple of that step nearest to \<open>x\<close>. A result of magnitude
  \<open>2^1024\<close> or more, which binary64 replaces by an infinity, is outside the model.
\<close>

definition expoente :: "rat \<Rightarrow> int" where
  "expoente a = (if 1 \<le> a then bitlen \<lfloor>a\<rfloor> - 1 else - bitlen (\<lceil>1 / a\<rceil> - 1))"

definition arredonda_par :: "rat \<Rightarrow> int" where
  "arredonda_par q =
     (if q - of_int \<lfloor>q\<rfloor> < 1 / 2 then \<lfloor>q\<rfloor>
      else if 1 / 2 < q - of_int \<lfloor>q\<rfloor> then \<lfloor>q\<rfloor> + 1
      else if even \<lfloor>q\<rfloor> then \<lfloor>q\<rfloor> else \<lfloor>q\<rfloor> + 1)"

definition bin64 :: "rat \<Rightarrow> rat" where
  "bin64 x =
     (if x = 0 then 0
      else of_int (arredonda_par (x / power_int 2 (max (expoente \<bar>x\<bar>) (- 1022) - 52)))
             * power_int 2 (max (expoente \<bar>x\<bar>) (- 1022) - 52))"

text \<open>
  \<open>a + b\<close> and \<open>a / b\<close> on floats round the exact result; the division raises on a zero
  divisor. \<open>sum(xs)\<close> starts from the integer 0 and adds the items from the left, one
  rounded addition for each. An integer below \<open>2^53\<close> is a binary64 number, so the sums of
  integers that Python keeps exact are not changed by the rounding while they stay below
  \<open>2^53\<close>, and \<open>len(xs)\<close> is converted exactly. (From version 3.12 on, CPython's \<open>sum\<close>
  also collects the rounding errors of the additions of floats and adds their total at the
  end; the sum here is the one without that correction.)
\<close>

definition float_add :: "rat \<Rightarrow> rat \<Rightarrow> rat" where
  "float_add a b = bin64 (a + b)"

definition float_truediv :: "rat \<Rightarrow> rat \<Rightarrow> py_error + rat" where
  "float_truediv a b = (if b = 0 then Inl ZeroDivisionError else Inr (bin64 (a / b)))"

definition py_sum :: "rat list \<Rightarrow> rat" where
  "py_sum xs = foldl float_add 0 xs"

section \<open>The list objects of the program\<close>

text \<open>
  \<open>self.filmes\<close> is a reference to a list object, and \<open>list.sort\<close> changes a list object
  in place. The store holds the list objects of movies, addressed by position; a new list
  gets the next free address. The movies themselves are never assigned to, so a list holds
  them by value.
\<close>

type_synonym ref = nat
type_synonym heap = "filme list list"

definition new_list :: "filme list \<Rightarrow> heap \<Rightarrow> ref \<times> heap" where
  "new_list xs h = (length h, h @ [xs])"

definition list_sort :: "ref \<Rightarrow> (filme \<Rightarrow> 'k::linorder) \<Rightarrow> bool \<Rightarrow> heap \<Rightarrow> heap" where
  "list_sort r f reverse h = h[r := (if reverse then sort_reverse f (h ! r) else sort_key f (h ! r))]"

record EstatisticasFilmes =
  arquivo_json :: string
  filmes :: ref

section \<open>The methods of EstatisticasFilmes\<close>

text \<open>
  A method that only reads \<open>self.filmes\<close> is a function of the list that \<open>self.filmes\<close>
  refers to.
\<close>

definition calcular_media_avaliacao :: "filme list \<Rightarrow> py_error + rat" where
  "calcular_media_avaliacao fs =
     (if fs = [] then Inr 0
      else let avaliacoes = map avaliacao fs
           in float_truediv (py_sum avaliacoes) (of_nat (length avaliacoes)))"

definition calcular_mediana_avaliacao :: "filme list \<Rightarrow> py_error + rat" where
  "calcular_mediana_avaliacao fs =
     (if fs = [] then Inr 0
      else let avaliacoes = sort (map avaliacao fs); n = int (length avaliacoes)
           in if n mod 2 = 0
              then bind_err (py_getitem avaliacoes (n div 2 - 1)) (\<lambda>a.
                   bind_err (py_getitem avaliacoes (n div 2)) (\<lambda>b.
                   py_truediv (a + b) 2))
              else py_getitem avaliacoes (n div 2))"

text \<open>
  \<open>filmes_acima_avaliacao(limite=6.0, ordenar=True)\<close>: an argument left out is \<open>None\<close>
  here and takes its default. The comprehension builds a new list object, which
  \<open>sort\<close> then changes in place.
\<close>

definition filmes_acima_avaliacao ::
  "EstatisticasFilmes \<Rightarrow> rat option \<Rightarrow> bool option \<Rightarrow> heap \<Rightarrow> string list \<times> heap" where
  "filmes_acima_avaliacao self limite_arg ordenar_arg h =
     (let limite = (case limite_arg of None \<Rightarrow> 6 | Some l \<Rightarrow> l);
          ordenar = (case ordenar_arg of None \<Rightarrow> True | Some b \<Rightarrow> b)
      in if h ! filmes self = [] then ([], h)
         else let (filmes_filtrados, h1) =
                    new_list (filter (\<lambda>f. avaliacao f > limite) (h ! filmes self)) h;
                  h2 = (if ordenar then list_sort filmes_filtrados avaliacao True h1 else h1)
              in (map nome (h2 ! filmes_filtrados), h2))"

definition filmes_em_streaming :: "filme list \<Rightarrow> string list" where
  "filmes_em_streaming fs = map nome (filter streaming fs)"

definition duracao_em_minutos :: "int \<times> int \<Rightarrow> int" where
  "duracao_em_minutos duracao_tuple = fst duracao_tuple * 60 + snd duracao_tuple"

text \<open>The empty dictionary \<open>{}\<close> that stands for "no movie" is \<open>None\<close>.\<close>

definition extremos_duracao :: "filme list \<Rightarrow> py_error + (filme option \<times> filme option)" where
  "extremos_duracao fs =
     (if fs = [] then Inr (None, None)
      else bind_err (py_max_key (\<lambda>x. duracao_em_minutos (duracao x)) fs) (\<lambda>mais_longo.
           bind_err (py_min_key (\<lambda>x. duracao_em_minutos (duracao x)) fs) (\<lambda>mais_curto.
           Inr (Some mais_longo, Some mais_curto))))"

definition moda_diretores :: "filme list \<Rightarrow> py_error + (string \<times> nat) list" where
  "moda_diretores fs =
     (if fs = [] then Inr []
      else let diretores = map diretor fs; contador = Counter diretores
           in if contador = [] then Inr []
              else bind_err (py_max_key (\<lambda>c. c) (map snd contador)) (\<lambda>max_contagem.
                   Inr (filter (\<lambda>(diretor, contagem). contagem = max_contagem) contador)))"

text \<open>
  \<open>exibir_estatisticas_adicionais\<close> computes the streaming percentage, the best and the
  worst rated movie and the mean duration with its hours and minutes, and prints them. The
  model returns what it computes.
\<close>

record adicionais =
  porcentagem :: rat
  melhor_avaliado :: filme
  pior_avaliado :: filme
  duracao_media_min :: rat
  horas :: int
  minutos :: int

definition exibir_estatisticas_adicionais :: "filme list \<Rightarrow> py_error + adicionais" where
  "exibir_estatisticas_adicionais fs =
     (let total_streaming = length (filmes_em_streaming fs)
      in bind_err (py_truediv (of_nat total_streaming) (of_nat (length fs))) (\<lambda>q.
         bind_err (py_max_key avaliacao fs) (\<lambda>melhor.
         bind_err (py_min_key avaliacao fs) (\<lambda>pior.
         let duracoes = map (\<lambda>f. duracao_em_minutos (duracao f)) fs
         in bind_err (py_truediv (of_int (sum_list duracoes)) (of_nat (length duracoes))) (\<lambda>media.
            bind_err (py_floordiv media 60) (\<lambda>hq.
            bind_err (py_mod media 60) (\<lambda>mr.
            Inr \<lparr>porcentagem = q * 100, melhor_avaliado = melhor, pior_avaliado = pior,
                 duracao_media_min = media, horas = py_int hq, minutos = py_int mr\<rparr>)))))))"

text \<open>
  \<open>exibir_estatisticas_completas\<close> returns at once on an empty catalogue; otherwise it
  calls every method in turn, reading \<open>self.filmes\<close> anew each time, and ends with
  \<open>exibir_estatisticas_adicionais\<close>. An error raised by a call leaves the method at that
  call. The model returns what is printed: \<open>None\<close> stands for the early return.
\<close>

record relatorio =
  r_total :: nat
  r_media :: rat
  r_mediana :: rat
  r_acima_6 :: "(string \<times> rat option) list"
  r_streaming :: "string list"
  r_extremos :: "filme option \<times> filme option"
  r_moda :: "(string \<times> nat \<times> string list) list"
  r_adicionais :: adicionais

definition exibir_estatisticas_completas ::
  "EstatisticasFilmes \<Rightarrow> heap \<Rightarrow> (py_error + relatorio option) \<times> heap" where
  "exibir_estatisticas_completas self h =
     (if h ! filmes self = [] then (Inr None, h)
      else
        (case calcular_media_avaliacao (h ! filmes self) of
           Inl e \<Rightarrow> (Inl e, h)
         | Inr media \<Rightarrow>
        (case calcular_mediana_avaliacao (h ! filmes self) of
           Inl e \<Rightarrow> (Inl e, h)
         | Inr mediana \<Rightarrow>
        (let (filmes_acima_6, h1) = filmes_acima_avaliacao self None None h;
             com_avaliacao =
               map (\<lambda>filme. (filme, map_option avaliacao (find (\<lambda>f. nome f = filme) (h1 ! filmes self))))
                 filmes_acima_6;
             filmes_streaming = filmes_em_streaming (h1 ! filmes self)
         in
        (case extremos_duracao (h1 ! filmes self) of
           Inl e \<Rightarrow> (Inl e, h1)
         | Inr extremos \<Rightarrow>
        (case moda_diretores (h1 ! filmes self) of
           Inl e \<Rightarrow> (Inl e, h1)
         | Inr moda \<Rightarrow>
        (let com_filmes =
               map (\<lambda>(d, contagem). (d, contagem, map nome (filter (\<lambda>f. diretor f = d) (h1 ! filmes self))))
                 moda
         in
        (case exibir_estatisticas_adicionais (h1 ! filmes self) of
           Inl e \<Rightarrow> (Inl e, h1)
         | Inr ad \<Rightarrow>
             (Inr (Some \<lparr>r_total = length (h ! filmes self), r_media = media, r_mediana = mediana,
                          r_acima_6 = com_avaliacao, r_streaming = filmes_streaming,
                          r_extremos = extremos, r_moda = com_filmes, r_adicionais = ad\<rparr>), h1)))))))))"

definition demonstrar_funcoes_avaliacao ::
  "EstatisticasFilmes \<Rightarrow> heap \<Rightarrow> (string list \<times> string list \<times> string list) \<times> heap" where
  "demonstrar_funcoes_avaliacao self h =
     (let (filmes_default, h1) = filmes_acima_avaliacao self None None h;
          (filmes_75, h2) = filmes_acima_avaliacao self (Some (15 / 2)) None h1;
          (filmes_nao_ordenados, h3) = filmes_acima_avaliacao self None (Some False) h2
      in ((filmes_default, filmes_75, filmes_nao_ordenados), h3))"

text \<open>
  \<open>main\<close>, from the list that \<open>carregar_dados\<close> returns (the empty list when the file is
  missing or is not JSON): the constructor stores it as the first list object, and the
  report is produced only for a catalogue that is not empty.
\<close>

definition main ::
  "filme list \<Rightarrow> py_error + (relatorio option \<times> string list \<times> string list \<times> string list) option" where
  "main dados =
     (let (r, h0) = new_list dados [];
          estatisticas = \<lparr>arquivo_json = ''catalogo_filmes.json'', filmes = r\<rparr>
      in if h0 ! filmes estatisticas \<noteq> []
         then (case exibir_estatisticas_completas estatisticas h0 of
                 (Inl e, h1) \<Rightarrow> Inl e
               | (Inr rel, h1) \<Rightarrow>
                   (let (demo, h2) = demonstrar_funcoes_avaliacao estatisticas h1
                    in Inr (Some (rel, demo))))
         else Inr None)"

text \<open>One call of an aggregate on the engine, with its result and the store it leaves.\<close>

datatype operacao =
  Media | Mediana | Acima "rat option" "bool option" | Streaming | Extremos | Moda | Adicionais

datatype resultado =
  Numero "py_error + rat"
| Nomes "string list"
| Par "py_error + (filme option \<times> filme option)"
| Contagens "py_error + (string \<times> nat) list"
| Extras "py_error + adicionais"

fun chamar :: "EstatisticasFilmes \<Rightarrow> operacao \<Rightarrow> heap \<Rightarrow> resultado \<times> heap" where
  "chamar self Media h = (Numero (calcular_media_avaliacao (h ! filmes self)), h)"
| "chamar self Mediana h = (Numero (calcular_mediana_avaliacao (h ! filmes self)), h)"
| "chamar self (Acima limite ordenar) h =
     (let (nomes, h') = filmes_acima_avaliacao self limite ordenar h in (Nomes nomes, h'))"
| "chamar self Streaming h = (Nomes (filmes_em_streaming (h ! filmes self)), h)"
| "chamar self Extremos h = (Par (extremos_duracao (h ! filmes self)), h)"
| "chamar self Moda h = (Contagens (moda_diretores (h ! filmes self)), h)"
| "chamar self Adicionais h = (Extras (exibir_estatisticas_adicionais (h ! filmes self)), h)"

section \<open>Example catalogues\<close>

definition filme_json :: "string \<Rightarrow> rat \<Rightarrow> string \<Rightarrow> int \<times> int \<Rightarrow> bool \<Rightarrow> filme" where
  "filme_json n a d du s = \<lparr>nome = n, avaliacao = a, diretor = d, duracao = du, streaming = s\<rparr>"

text \<open>Two movies share the longest duration and two the shortest; two share each rating.\<close>

definition catalogo_empates :: "filme list" where
  "catalogo_empates =
     [filme_json ''A'' 7 ''X'' (1, 30) True, filme_json ''B'' 9 ''Y'' (2, 0) False,
      filme_json ''C'' 9 ''X'' (2, 0) True, filme_json ''D'' 7 ''Y'' (1, 30) False]"

text \<open>A catalogue with the given ratings, in the given order.\<close>

definition filmes_com_avaliacoes :: "rat list \<Rightarrow> filme list" where
  "filmes_com_avaliacoes as = map (\<lambda>a. filme_json ''F'' a ''D'' (1, 30) False) as"

text \<open>
  Three movies rated 0.1: the binary64 number that \<open>0.1\<close> denotes is
  \<open>3602879701896397 / 2^55\<close>.
\<close>

definition catalogo_decimos :: "filme list" where
  "catalogo_decimos =
     filmes_com_avaliacoes
       [3602879701896397 / 36028797018963968, 3602879701896397 / 36028797018963968,
        3602879701896397 / 36028797018963968]"


text \<open>
  The position of the first occurrence of an item in a list, counted from 0 (the length of
  the list when the item does not occur).
\<close>

fun primeira_posicao :: "'a \<Rightarrow> 'a list \<Rightarrow> nat" where
  "primeira_posicao x [] = 0"
| "primeira_posicao x (y # ys) = (if x = y then 0 else Suc (primeira_posicao x ys))"

text \<open>Five movies whose directors are A, B, A, B, C, and five with B, A, A, B, C.\<close>

definition catalogo_diretores :: "filme list" where
  "catalogo_diretores =
     [filme_json ''f1'' 7 ''A'' (1, 30) True, filme_json ''f2'' 8 ''B'' (2, 0) False,
      filme_json ''f3'' 6 ''A'' (1, 45) True, filme_json ''f4'' 9 ''B'' (2, 10) False,
      filme_json ''f5'' 5 ''C'' (1, 50) True]"

definition catalogo_diretores_2 :: "filme list" where
  "catalogo_diretores_2 =
     [filme_json ''f1'' 7 ''B'' (1, 30) True, filme_json ''f2'' 8 ''A'' (2, 0) False,
      filme_json ''f3'' 6 ''A'' (1, 45) True, filme_json ''f4'' 9 ''B'' (2, 10) False,
      filme_json ''f5'' 5 ''C'' (1, 50) True]"

text \<open>Four movies rated 5, 6, 7 and 8, and the engine whose catalogue is the first list object.\<close>

definition catalogo_5678 :: "filme list" where
  "catalogo_5678 =
     [filme_json ''cinco'' 5 ''X'' (1, 30) True, filme_json ''seis'' 6 ''Y'' (2, 0) False,
      filme_json ''sete'' 7 ''X'' (1, 45) True, filme_json ''oito'' 8 ''Z'' (2, 10) False]"

definition motor :: EstatisticasFilmes where
  "motor = \<lparr>arquivo_json = ''catalogo_filmes.json'', filmes = 0\<rparr>"

section \<open>Scans for the largest and the smallest key\<close>

lemma max_scan_upper:
  "f best \<le> f (max_scan f best xs) \<and> (\<forall>x\<in>set xs. f x \<le> f (max_scan f best xs))"
proof (induction xs arbitrary: best)
  case Nil
  show ?case by simp
next
  case (Cons x xs)
  show ?case
  proof (cases "f best < f x")
    case True
    with Cons.IH[of x] show ?thesis by auto
  next
    case False
    with Cons.IH[of best] show ?thesis by auto
  qed
qed

lemma max_scan_first:
  "\<exists>i<length (best # xs). max_scan f best xs = (best # xs) ! i \<and>
      (\<forall>k<i. f ((best # xs) ! k) < f ((best # xs) ! i))"
proof (induction xs arbitrary: best)
  case Nil
  show ?case by simp
next
  case (Cons x xs)
  show ?case
  proof (cases "f best < f x")
    case True
    from Cons.IH[of x] obtain i where i: "i < length (x # xs)"
      "max_scan f x xs = (x # xs) ! i" "\<forall>k<i. f ((x # xs) ! k) < f ((x # xs) ! i)"
      by blast
    have ge: "f x \<le> f ((x # xs) ! i)"
      using max_scan_upper[of f x xs] i(2) by simp
    have "\<forall>k<Suc i. f ((best # x # xs) ! k) < f ((best # x # xs) ! Suc i)"
    proof (intro allI impI)
      fix k assume "k < Suc i"
      show "f ((best # x # xs) ! k) < f ((best # x # xs) ! Suc i)"
      proof (cases k)
        case 0
        with True ge show ?thesis by simp
      next
        case (Suc k')
        with \<open>k < Suc i\<close> i(3) show ?thesis by simp
      qed
    qed
    with i True show ?thesis
      by (intro exI[of _ "Suc i"]) simp
  next
    case False
    from Cons.IH[of best] obtain i where i: "i < length (best # xs)"
      "max_scan f best xs = (best # xs) ! i" "\<forall>k<i. f ((best # xs) ! k) < f ((best # xs) ! i)"
      by blast
    show ?thesis
    proof (cases i)
      case 0
      with i False show ?thesis by (intro exI[of _ 0]) simp
    next
      case (Suc j)
      have b: "f best < f ((best # xs) ! i)" using i(3) Suc by auto
      have "\<forall>k<Suc i. f ((best # x # xs) ! k) < f ((best # x # xs) ! Suc i)"
      proof (intro allI impI)
        fix k assume k: "k < Suc i"
        show "f ((best # x # xs) ! k) < f ((best # x # xs) ! Suc i)"
        proof (cases k)
          case 0
          with b Suc show ?thesis by simp
        next
          case (Suc k')
          note k' = this
          show ?thesis
          proof (cases k')
            case 0
            with k' b False \<open>i = Suc j\<close> show ?thesis by auto
          next
            case (Suc k'')
            have "Suc k'' < i" using k k' Suc by simp
            with i(3) have "f ((best # xs) ! Suc k'') < f ((best # xs) ! i)" by blast
            with k' Suc \<open>i = Suc j\<close> show ?thesis by simp
          qed
        qed
      qed
      with i False Suc show ?thesis
        by (intro exI[of _ "Suc i"]) simp
    qed
  qed
qed

lemma min_scan_lower:
  "f (min_scan f best xs) \<le> f best \<and> (\<forall>x\<in>set xs. f (min_scan f best xs) \<le> f x)"
proof (induction xs arbitrary: best)
  case Nil
  show ?case by simp
next
  case (Cons x xs)
  show ?case
  proof (cases "f x < f best")
    case True
    with Cons.IH[of x] show ?thesis by auto
  next
    case False
    with Cons.IH[of best] show ?thesis by auto
  qed
qed

lemma min_scan_first:
  "\<exists>i<length (best # xs). min_scan f best xs = (best # xs) ! i \<and>
      (\<forall>k<i. f ((best # xs) ! i) < f ((best # xs) ! k))"
proof (induction xs arbitrary: best)
  case Nil
  show ?case by simp
next
  case (Cons x xs)
  show ?case
  proof (cases "f x < f best")
    case True
    from Cons.IH[of x] obtain i where i: "i < length (x # xs)"
      "min_scan f x xs = (x # xs) ! i" "\<forall>k<i. f ((x # xs) ! i) < f ((x # xs) ! k)"
      by blast
    have le: "f ((x # xs) ! i) \<le> f x"
      using min_scan_lower[of f x xs] i(2) by simp
    have "\<forall>k<Suc i. f ((best # x # xs) ! Suc i) < f ((best # x # xs) ! k)"
    proof (intro allI impI)
      fix k assume "k < Suc i"
      show "f ((best # x # xs) ! Suc i) < f ((best # x # xs) ! k)"
      proof (cases k)
        case 0
        with True le show ?thesis by simp
      next
        case (Suc k')
        with \<open>k < Suc i\<close> i(3) show ?thesis by simp
      qed
    qed
    with i True show ?thesis
      by (intro exI[of _ "Suc i"]) simp
  next
    case False
    from Cons.IH[of best] obtain i where i: "i < length (best # xs)"
      "min_scan f best xs = (best # xs) ! i" "\<forall>k<i. f ((best # xs) ! i) < f ((best # xs) ! k)"
      by blast
    show ?thesis
    proof (cases i)
      case 0
      with i False show ?thesis by (intro exI[of _ 0]) simp
    next
      case (Suc j)
      have b: "f ((best # xs) ! i) < f best" using i(3) Suc by auto
      have "\<forall>k<Suc i. f ((best # x # xs) ! Suc i) < f ((best # x # xs) ! k)"
      proof (intro allI impI)
        fix k assume k: "k < Suc i"
        show "f ((best # x # xs) ! Suc i) < f ((best # x # xs) ! k)"
        proof (cases k)
          case 0
          with b Suc show ?thesis by simp
        next
          case (Suc k')
          note k' = this
          show ?thesis
          proof (cases k')
            case 0
            with k' b False \<open>i = Suc j\<close> show ?thesis by auto
          next
            case (Suc k'')
            have "Suc k'' < i" using k k' Suc by simp
            with i(3) have "f ((best # xs) ! i) < f ((best # xs) ! Suc k'')" by blast
            with k' Suc \<open>i = Suc j\<close> show ?thesis by simp
          qed
        qed
      qed
      with i False Suc show ?thesis
        by (intro exI[of _ "Suc i"]) simp
    qed
  qed
qed

text \<open>
  On a list that is not empty, \<open>max\<close> returns the item at the first position that holds
  the largest key, and \<open>min\<close> the item at the first position that holds the smallest.
\<close>

lemma py_max_key_first:
  assumes "xs \<noteq> []"
  shows "\<exists>i<length xs. py_max_key f xs = Inr (xs ! i) \<and>
           (\<forall>k<length xs. f (xs ! k) \<le> f (xs ! i)) \<and> (\<forall>k<i. f (xs ! k) < f (xs ! i))"
proof -
  from assms obtain b ys where xs: "xs = b # ys" by (cases xs) auto
  from max_scan_first[of b ys f] obtain i where i: "i < length (b # ys)"
    "max_scan f b ys = (b # ys) ! i" "\<forall>k<i. f ((b # ys) ! k) < f ((b # ys) ! i)"
    by blast
  have "\<forall>x\<in>set (b # ys). f x \<le> f (max_scan f b ys)"
    using max_scan_upper[of f b ys] by simp
  then have "\<forall>k<length (b # ys). f ((b # ys) ! k) \<le> f ((b # ys) ! i)"
    unfolding i(2) using nth_mem by blast
  with i show ?thesis
    unfolding xs py_max_key_def by (intro exI[of _ i]) simp
qed

lemma py_min_key_first:
  assumes "xs \<noteq> []"
  shows "\<exists>i<length xs. py_min_key f xs = Inr (xs ! i) \<and>
           (\<forall>k<length xs. f (xs ! i) \<le> f (xs ! k)) \<and> (\<forall>k<i. f (xs ! i) < f (xs ! k))"
proof -
  from assms obtain b ys where xs: "xs = b # ys" by (cases xs) auto
  from min_scan_first[of b ys f] obtain i where i: "i < length (b # ys)"
    "min_scan f b ys = (b # ys) ! i" "\<forall>k<i. f ((b # ys) ! i) < f ((b # ys) ! k)"
    by blast
  have "\<forall>x\<in>set (b # ys). f (min_scan f b ys) \<le> f x"
    using min_scan_lower[of f b ys] by simp
  then have "\<forall>k<length (b # ys). f ((b # ys) ! i) \<le> f ((b # ys) ! k)"
    unfolding i(2) using nth_mem by blast
  with i show ?thesis
    unfolding xs py_min_key_def by (intro exI[of _ i]) simp
qed

section \<open>The additional statistics on a catalogue that is not empty\<close>

lemma adicionais_nonempty:
  assumes "fs \<noteq> []" "py_max_key avaliacao fs = Inr a" "py_min_key avaliacao fs = Inr b"
  defines "m \<equiv> rat_of_int (sum_list (map (\<lambda>f. duracao_em_minutos (duracao f)) fs)) / of_nat (length fs)"
  shows "exibir_estatisticas_adicionais fs =
     Inr \<lparr>porcentagem = of_nat (length (filmes_em_streaming fs)) / of_nat (length fs) * 100,
          melhor_avaliado = a, pior_avaliado = b, duracao_media_min = m,
          horas = py_int (of_int \<lfloor>m / 60\<rfloor>), minutos = py_int (m - 60 * of_int \<lfloor>m / 60\<rfloor>)\<rparr>"
  using assms(1-3) unfolding m_def
  by (simp add: exibir_estatisticas_adicionais_def bind_err_def py_truediv_def py_floordiv_def
      py_mod_def Let_def)

section \<open>Longest and shortest movie\<close>

text \<open>
  C3. \<open>duracao_em_minutos\<close> is hours times 60 plus minutes. On an empty catalogue
  \<open>extremos_duracao\<close> returns the two empty sentinels and raises nothing. On any other
  catalogue it returns the movie at the first position that holds the longest duration
  and the movie at the first position that holds the shortest: no movie is longer than
  the first one returned and every movie before it is strictly shorter, and likewise
  for the second.
\<close>

theorem extremos_duracao_first:
  "duracao_em_minutos (hh, mm) = hh * 60 + mm \<and>
   extremos_duracao [] = Inr (None, None) \<and>
   (fs \<noteq> [] \<longrightarrow>
     (\<exists>i<length fs. \<exists>j<length fs.
        extremos_duracao fs = Inr (Some (fs ! i), Some (fs ! j)) \<and>
        (\<forall>k<length fs. duracao_em_minutos (duracao (fs ! k)) \<le> duracao_em_minutos (duracao (fs ! i))) \<and>
        (\<forall>k<i. duracao_em_minutos (duracao (fs ! k)) < duracao_em_minutos (duracao (fs ! i))) \<and>
        (\<forall>k<length fs. duracao_em_minutos (duracao (fs ! j)) \<le> duracao_em_minutos (duracao (fs ! k))) \<and>
        (\<forall>k<j. duracao_em_minutos (duracao (fs ! j)) < duracao_em_minutos (duracao (fs ! k)))))"
proof (intro conjI impI)
  show "duracao_em_minutos (hh, mm) = hh * 60 + mm"
    by (simp add: duracao_em_minutos_def)
  show "extremos_duracao [] = Inr (None, None)"
    by (simp add: extremos_duracao_def)
next
  assume ne: "fs \<noteq> []"
  let ?d = "\<lambda>x. duracao_em_minutos (duracao x)"
  from py_max_key_first[OF ne, of ?d] obtain i where i: "i < length fs"
    "py_max_key ?d fs = Inr (fs ! i)" "\<forall>k<length fs. ?d (fs ! k) \<le> ?d (fs ! i)"
    "\<forall>k<i. ?d (fs ! k) < ?d (fs ! i)"
    by blast
  from py_min_key_first[OF ne, of ?d] obtain j where j: "j < length fs"
    "py_min_key ?d fs = Inr (fs ! j)" "\<forall>k<length fs. ?d (fs ! j) \<le> ?d (fs ! k)"
    "\<forall>k<j. ?d (fs ! j) < ?d (fs ! k)"
    by blast
  have "extremos_duracao fs = Inr (Some (fs ! i), Some (fs ! j))"
    using ne i(2) j(2) by (simp add: extremos_duracao_def bind_err_def)
  with i j show "\<exists>i<length fs. \<exists>j<length fs.
        extremos_duracao fs = Inr (Some (fs ! i), Some (fs ! j)) \<and>
        (\<forall>k<length fs. ?d (fs ! k) \<le> ?d (fs ! i)) \<and>
        (\<forall>k<i. ?d (fs ! k) < ?d (fs ! i)) \<and>
        (\<forall>k<length fs. ?d (fs ! j) \<le> ?d (fs ! k)) \<and>
        (\<forall>k<j. ?d (fs ! j) < ?d (fs ! k))"
    by blast
qed

theorem extremos_duracao_first_witness:
  "catalogo_empates \<noteq> [] \<and>
   extremos_duracao catalogo_empates =
     Inr (Some (filme_json ''B'' 9 ''Y'' (2, 0) False), Some (filme_json ''A'' 7 ''X'' (1, 30) True))"
proof -
  have ne: "catalogo_empates \<noteq> []" by (simp add: catalogo_empates_def)
  from extremos_duracao_first[of 0 0 catalogo_empates] ne
  obtain i j where ij: "i < length catalogo_empates" "j < length catalogo_empates"
    "extremos_duracao catalogo_empates = Inr (Some (catalogo_empates ! i), Some (catalogo_empates ! j))"
    "\<forall>k<length catalogo_empates. duracao_em_minutos (duracao (catalogo_empates ! k))
        \<le> duracao_em_minutos (duracao (catalogo_empates ! i))"
    "\<forall>k<i. duracao_em_minutos (duracao (catalogo_empates ! k))
        < duracao_em_minutos (duracao (catalogo_empates ! i))"
    "\<forall>k<length catalogo_empates. duracao_em_minutos (duracao (catalogo_empates ! j))
        \<le> duracao_em_minutos (duracao (catalogo_empates ! k))"
    "\<forall>k<j. duracao_em_minutos (duracao (catalogo_empates ! j))
        < duracao_em_minutos (duracao (catalogo_empates ! k))"
    by blast
  have len: "length catalogo_empates = 4" by (simp add: catalogo_empates_def)
  have d: "map (\<lambda>x. duracao_em_minutos (duracao x)) catalogo_empates = [90, 120, 120, 90]"
    by (simp add: catalogo_empates_def filme_json_def duracao_em_minutos_def)
  have dn: "\<And>k. k < 4 \<Longrightarrow> duracao_em_minutos (duracao (catalogo_empates ! k)) = [90, 120, 120, 90] ! k"
    using d len by (metis nth_map)
  have "i = 1"
  proof -
    have "i < 4" using ij(1) len by simp
    then consider "i = 0" | "i = 1" | "i = 2" | "i = 3" by linarith
    then show ?thesis
    proof cases
      case 1
      from ij(4) len have "duracao_em_minutos (duracao (catalogo_empates ! 1))
        \<le> duracao_em_minutos (duracao (catalogo_empates ! i))" by simp
      with 1 dn[of 0] dn[of 1] show ?thesis by simp
    next
      case 2 then show ?thesis .
    next
      case 3
      with ij(5) have "duracao_em_minutos (duracao (catalogo_empates ! 1))
        < duracao_em_minutos (duracao (catalogo_empates ! 2))" by simp
      with dn[of 1] dn[of 2] show ?thesis by simp
    next
      case 4
      from ij(4) len have "duracao_em_minutos (duracao (catalogo_empates ! 1))
        \<le> duracao_em_minutos (duracao (catalogo_empates ! i))" by simp
      with 4 dn[of 3] dn[of 1] show ?thesis by simp
    qed
  qed
  moreover have "j = 0"
  proof (rule ccontr)
    assume "j \<noteq> 0"
    then have "0 < j" by simp
    with ij(7) have lt: "duracao_em_minutos (duracao (catalogo_empates ! j))
        < duracao_em_minutos (duracao (catalogo_empates ! 0))" by blast
    from ij(6) len have "duracao_em_minutos (duracao (catalogo_empates ! j))
        \<le> duracao_em_minutos (duracao (catalogo_empates ! 0))" by simp
    have "j < 4" using ij(2) len by simp
    then consider "j = 0" | "j = 1" | "j = 2" | "j = 3" by linarith
    then show False using lt dn[of 0] dn[of 1] dn[of 2] dn[of 3] \<open>j \<noteq> 0\<close>
      by cases simp_all
  qed
  ultimately show ?thesis using ij(3) ne by (simp add: catalogo_empates_def)
qed

section \<open>Mean rating\<close>

lemma sum_list_le_length_times:
  "(\<forall>x\<in>set xs. x \<le> M) \<Longrightarrow> sum_list xs \<le> of_nat (length xs) * (M::rat)"
  by (induction xs) (auto simp: algebra_simps)

lemma length_times_le_sum_list:
  "(\<forall>x\<in>set xs. M \<le> x) \<Longrightarrow> of_nat (length xs) * (M::rat) \<le> sum_list xs"
  by (induction xs) (auto simp: algebra_simps)

text \<open>
  The exact mean of the ratings of a non-empty catalogue lies between the smallest and the
  largest of them.
\<close>

lemma media_exata_entre_extremos:
  assumes ne: "fs \<noteq> []"
  shows "Min (avaliacao ` set fs) \<le> sum_list (map avaliacao fs) / of_nat (length fs) \<and>
         sum_list (map avaliacao fs) / of_nat (length fs) \<le> Max (avaliacao ` set fs)"
proof
  let ?xs = "map avaliacao fs"
  have pos: "(0::rat) < of_nat (length fs)" using ne by simp
  have "\<forall>x\<in>set ?xs. Min (avaliacao ` set fs) \<le> x" by simp
  from length_times_le_sum_list[OF this]
  have "of_nat (length fs) * Min (avaliacao ` set fs) \<le> sum_list ?xs" by simp
  then show "Min (avaliacao ` set fs) \<le> sum_list ?xs / of_nat (length fs)"
    using pos by (simp add: pos_le_divide_eq mult.commute)
  have "\<forall>x\<in>set ?xs. x \<le> Max (avaliacao ` set fs)" by simp
  from sum_list_le_length_times[OF this]
  have "sum_list ?xs \<le> of_nat (length fs) * Max (avaliacao ` set fs)" by simp
  then show "sum_list ?xs / of_nat (length fs) \<le> Max (avaliacao ` set fs)"
    using pos by (simp add: pos_divide_le_eq mult.commute)
qed

text \<open>
  \<open>expoente\<close> finds the power of two at or below a positive number, so \<open>bin64\<close> rounds to
  a significand of 53 bits.
\<close>

lemma expoente_binade:
  assumes pos: "0 < a"
  shows "power_int 2 (expoente a) \<le> a \<and> a < power_int 2 (expoente a + 1)"
proof (cases "1 \<le> a")
  case True
  define n where "n = \<lfloor>a\<rfloor>"
  have n1: "1 \<le> n" using True by (simp add: n_def)
  then have npos: "0 < n" by simp
  have bl: "1 \<le> bitlen n" using npos bitlen_eq_zero_iff[of n] bitlen_nonneg[of n] by linarith
  from bitlen_bounds[OF npos]
  have lo: "2 ^ nat (bitlen n - 1) \<le> n" and hi: "n < 2 ^ nat (bitlen n)" by simp_all
  have e: "expoente a = bitlen n - 1" using True by (simp add: expoente_def n_def)
  have "(of_int (2 ^ nat (bitlen n - 1)) :: rat) \<le> of_int n" using lo by (simp only: of_int_le_iff)
  also have "\<dots> \<le> a" by (simp add: n_def)
  finally have A: "power_int 2 (expoente a) \<le> a"
    using bl by (simp add: e power_int_def)
  have "n + 1 \<le> 2 ^ nat (bitlen n)" using hi by simp
  then have "(of_int (n + 1) :: rat) \<le> of_int (2 ^ nat (bitlen n))" by (simp only: of_int_le_iff)
  moreover have "a < of_int (n + 1)" unfolding n_def by linarith
  ultimately have "a < of_int (2 ^ nat (bitlen n))" by linarith
  then have B: "a < power_int 2 (expoente a + 1)"
    using bl by (simp add: e power_int_def)
  from A B show ?thesis ..
next
  case False
  then have lt1: "a < 1" by simp
  define y where "y = 1 / a"
  have y1: "1 < y" using pos lt1 by (simp add: y_def)
  have ypos: "0 < y" using y1 by simp
  have a_y: "a = 1 / y" using pos by (simp add: y_def)
  define m where "m = \<lceil>y\<rceil> - 1"
  have "1 < \<lceil>y\<rceil>" using y1 by linarith
  then have mpos: "0 < m" by (simp add: m_def)
  have my: "of_int m < y" unfolding m_def by linarith
  have ym: "y \<le> of_int (m + 1)" unfolding m_def by simp
  have bl: "1 \<le> bitlen m" using mpos bitlen_eq_zero_iff[of m] bitlen_nonneg[of m] by linarith
  from bitlen_bounds[OF mpos]
  have lo: "2 ^ nat (bitlen m - 1) \<le> m" and hi: "m < 2 ^ nat (bitlen m)" by simp_all
  have e: "expoente a = - bitlen m" using False by (simp add: expoente_def m_def y_def)
  have "m + 1 \<le> 2 ^ nat (bitlen m)" using hi by simp
  then have "(of_int (m + 1) :: rat) \<le> of_int (2 ^ nat (bitlen m))" by (simp only: of_int_le_iff)
  with ym have yle: "y \<le> 2 ^ nat (bitlen m)" by simp
  have "1 / (2 ^ nat (bitlen m)) \<le> 1 / y"
    using yle ypos by (simp add: frac_le)
  then have A: "power_int 2 (expoente a) \<le> a"
    using bl by (simp add: e power_int_def a_y[symmetric] field_simps)
  have "(of_int (2 ^ nat (bitlen m - 1)) :: rat) \<le> of_int m" using lo by (simp only: of_int_le_iff)
  then have "(2::rat) ^ nat (bitlen m - 1) \<le> of_int m" by simp
  with my have ylo: "2 ^ nat (bitlen m - 1) < y" by linarith
  have "1 / y < 1 / (2 ^ nat (bitlen m - 1))"
    using ylo by (simp add: frac_less2)
  then have B: "a < power_int 2 (expoente a + 1)"
  proof (cases "bitlen m = 1")
    case True
    then show ?thesis using lt1 by (simp add: e)
  next
    case F: False
    with bl have "2 \<le> bitlen m" by simp
    then have "expoente a + 1 < 0" "nat (- (expoente a + 1)) = nat (bitlen m - 1)" by (simp_all add: e)
    then have "power_int 2 (expoente a + 1) = (1 / 2 ^ nat (bitlen m - 1) :: rat)"
      by (simp add: power_int_def field_simps)
    with \<open>1 / y < 1 / (2 ^ nat (bitlen m - 1))\<close> show ?thesis by (simp add: a_y[symmetric])
  qed
  from A B show ?thesis ..
qed

text \<open>
  Rounding to the nearest integer moves a number by at most one half, so \<open>bin64\<close> moves
  \<open>x\<close> by at most half a step: \<open>\<bar>x\<bar> / 2^53\<close>, or \<open>1 / 2^1075\<close> among the subnormal numbers.
\<close>

lemma arredonda_par_erro: "\<bar>of_int (arredonda_par q) - q\<bar> \<le> 1 / 2"
proof -
  have "of_int \<lfloor>q\<rfloor> \<le> q" "q < of_int \<lfloor>q\<rfloor> + 1" by linarith+
  then show ?thesis by (auto simp: arredonda_par_def abs_le_iff)
qed

lemma bin64_erro: "\<bar>bin64 x - x\<bar> \<le> \<bar>x\<bar> / 2 ^ 53 + 1 / 2 ^ 1075"
proof (cases "x = 0")
  case True
  then show ?thesis by (simp add: bin64_def)
next
  case False
  define k where "k = max (expoente \<bar>x\<bar>) (- 1022) - 52"
  define u :: rat where "u = power_int 2 k"
  have upos: "0 < u" by (simp add: u_def)
  have b: "bin64 x = of_int (arredonda_par (x / u)) * u"
    using False by (simp add: bin64_def u_def k_def)
  have "bin64 x - x = (of_int (arredonda_par (x / u)) - x / u) * u"
    using upos by (simp add: b field_simps)
  then have "\<bar>bin64 x - x\<bar> = \<bar>of_int (arredonda_par (x / u)) - x / u\<bar> * u"
    using upos by (simp add: abs_mult)
  also have "\<dots> \<le> (1 / 2) * u"
    using arredonda_par_erro[of "x / u"] upos by (simp only: mult_right_mono less_imp_le)
  finally have err: "\<bar>bin64 x - x\<bar> \<le> u / 2" by simp
  have "u / 2 \<le> \<bar>x\<bar> / 2 ^ 53 + 1 / 2 ^ 1075"
  proof (cases "- 1022 \<le> expoente \<bar>x\<bar>")
    case True
    then have "k = expoente \<bar>x\<bar> + (- 52)" by (simp add: k_def)
    moreover have "power_int (2::rat) (expoente \<bar>x\<bar> + (- 52))
        = power_int 2 (expoente \<bar>x\<bar>) * power_int 2 (- 52)"
      by (rule power_int_add) simp
    ultimately have "u = power_int 2 (expoente \<bar>x\<bar>) * power_int 2 (- 52)"
      unfolding u_def by (simp only:)
    moreover have "power_int 2 (expoente \<bar>x\<bar>) \<le> \<bar>x\<bar>"
      using expoente_binade[of "\<bar>x\<bar>"] False by simp
    ultimately have "u \<le> \<bar>x\<bar> * power_int 2 (- 52)"
      by (simp add: mult_right_mono)
    then have "u / 2 \<le> \<bar>x\<bar> * power_int 2 (- 52) / 2" by simp
    also have "\<dots> = \<bar>x\<bar> / 2 ^ 53" by (simp add: power_int_def field_simps)
    finally show ?thesis by (simp add: add_increasing2)
  next
    case F: False
    then have "k = - 1074" by (simp add: k_def)
    then have "u / 2 = 1 / 2 ^ 1075" by (simp add: u_def power_int_def field_simps)
    then show ?thesis by simp
  qed
  with err show ?thesis by linarith
qed

lemma bin64_erro_unidade: "\<bar>bin64 x - x\<bar> \<le> (\<bar>x\<bar> + 1) / 2 ^ 53"
proof -
  have "(1::rat) / 2 ^ 1075 \<le> 1 / 2 ^ 53"
    by (rule divide_left_mono) (simp_all add: power_increasing)
  with bin64_erro[of x] show ?thesis by (simp add: add_divide_distrib)
qed

text \<open>
  The rounded sum of ratings of magnitude at most 10: after \<open>j\<close> additions the sum is
  within \<open>j\<close> times \<open>20 n / 2^53\<close> of the exact one, \<open>n\<close> being the number of ratings.
\<close>

lemma abs_sum_list_le:
  "(\<forall>x\<in>set xs. \<bar>x\<bar> \<le> B) \<Longrightarrow> \<bar>sum_list xs\<bar> \<le> of_nat (length xs) * (B::rat)"
proof (induction xs)
  case Nil
  show ?case by simp
next
  case (Cons x xs)
  then have "\<bar>x\<bar> \<le> B" "\<bar>sum_list xs\<bar> \<le> of_nat (length xs) * B" by simp_all
  then have "\<bar>x + sum_list xs\<bar> \<le> B + of_nat (length xs) * B" by linarith
  then show ?case by (simp add: algebra_simps)
qed

lemma py_sum_erro_passo:
  assumes "\<forall>x\<in>set xs. \<bar>x\<bar> \<le> 10"
      and "j + length xs \<le> n" and "n \<le> 2 ^ 50"
      and "\<bar>s - S\<bar> \<le> of_nat j * (20 * of_nat n / 2 ^ 53)"
      and "\<bar>S\<bar> \<le> of_nat j * 10"
    shows "\<bar>foldl float_add s xs - (S + sum_list xs)\<bar>
             \<le> of_nat (j + length xs) * (20 * of_nat n / 2 ^ 53)"
  using assms
proof (induction xs arbitrary: s S j)
  case Nil
  then show ?case by simp
next
  case (Cons x xs)
  define N :: rat where "N = of_nat n"
  define J :: rat where "J = of_nat j"
  define u :: rat where "u = 1 / 2 ^ 53"
  define d :: rat where "d = 20 * N * u"
  have upos: "0 \<le> u" by (simp add: u_def)
  have J0: "0 \<le> J" by (simp add: J_def)
  have "Suc j \<le> n" using Cons.prems(2) by simp
  then have "(of_nat (Suc j) :: rat) \<le> of_nat n" by (simp only: of_nat_le_iff)
  then have JN: "J + 1 \<le> N" by (simp add: J_def N_def)
  have "(of_nat n :: rat) \<le> of_nat (2 ^ 50)" using Cons.prems(3) by (simp only: of_nat_le_iff)
  then have "N \<le> 2 ^ 50" by (simp add: N_def)
  then have "N * u \<le> 2 ^ 50 * u" using upos by (rule mult_right_mono)
  then have Nu: "N * u \<le> 1 / 8" by (simp add: u_def)
  have dJ: "d = 20 * of_nat n / 2 ^ 53" by (simp add: d_def N_def u_def)
  have A: "\<bar>s - S\<bar> \<le> J * d" using Cons.prems(4) by (simp only: dJ J_def)
  have S: "\<bar>S\<bar> \<le> J * 10" using Cons.prems(5) by (simp only: J_def)
  have x: "\<bar>x\<bar> \<le> 10" using Cons.prems(1) by simp
  have "J * (N * u) \<le> J * (1 / 8)" using Nu J0 by (rule mult_left_mono)
  then have Jd: "J * d \<le> 5 / 2 * J" by (simp add: d_def algebra_simps)
  have y: "\<bar>s + x\<bar> \<le> 10 * J + 10 + J * d" using A S x by linarith
  have "\<bar>bin64 (s + x) - (s + x)\<bar> \<le> (\<bar>s + x\<bar> + 1) * u"
    using bin64_erro_unidade[of "s + x"] by (simp add: u_def)
  also have "\<dots> \<le> (20 * N) * u"
  proof (rule mult_right_mono)
    show "\<bar>s + x\<bar> + 1 \<le> 20 * N" using y Jd JN J0 by linarith
  qed (rule upos)
  finally have E: "\<bar>bin64 (s + x) - (s + x)\<bar> \<le> d" by (simp add: d_def)
  have "\<bar>bin64 (s + x) - (S + x)\<bar> \<le> d + J * d" using E A by linarith
  also have "\<dots> = of_nat (Suc j) * d" by (simp add: J_def algebra_simps)
  finally have p4: "\<bar>float_add s x - (S + x)\<bar> \<le> of_nat (Suc j) * (20 * of_nat n / 2 ^ 53)"
    by (simp only: dJ float_add_def)
  have "\<bar>S + x\<bar> \<le> J * 10 + 10" using S x by linarith
  also have "\<dots> = of_nat (Suc j) * 10" by (simp add: J_def algebra_simps)
  finally have p5: "\<bar>S + x\<bar> \<le> of_nat (Suc j) * 10" .
  have p1: "\<forall>x\<in>set xs. \<bar>x\<bar> \<le> 10" using Cons.prems(1) by simp
  have p2: "Suc j + length xs \<le> n" using Cons.prems(2) by simp
  from Cons.IH[OF p1 p2 Cons.prems(3) p4 p5]
  show ?case by (simp add: add.assoc)
qed

lemma media_erro:
  assumes ne: "xs \<noteq> []" and lim: "\<forall>x\<in>set xs. \<bar>x\<bar> \<le> 10" and len: "length xs \<le> 2 ^ 50"
  shows "\<bar>bin64 (py_sum xs / of_nat (length xs)) - sum_list xs / of_nat (length xs)\<bar>
           \<le> 5 * of_nat (length xs + 1) / 2 ^ 51"
proof -
  define N :: rat where "N = of_nat (length xs)"
  define u :: rat where "u = 1 / 2 ^ 53"
  define d :: rat where "d = 20 * N * u"
  define t where "t = py_sum xs / N"
  define mu where "mu = sum_list xs / N"
  have upos: "0 \<le> u" by (simp add: u_def)
  have "0 < length xs" using ne by simp
  then have "(of_nat 1 :: rat) \<le> of_nat (length xs)" by (simp only: of_nat_le_iff)
  then have N1: "1 \<le> N" by (simp add: N_def)
  then have Npos: "0 < N" by simp
  have "(of_nat (length xs) :: rat) \<le> of_nat (2 ^ 50)" using len by (simp only: of_nat_le_iff)
  then have "N \<le> 2 ^ 50" by (simp add: N_def)
  then have "N * u \<le> 2 ^ 50 * u" using upos by (rule mult_right_mono)
  then have Nu: "N * u \<le> 1 / 8" by (simp add: u_def)
  then have d52: "d \<le> 5 / 2" by (simp add: d_def)
  have dJ: "d = 20 * of_nat (length xs) / 2 ^ 53" by (simp add: d_def N_def u_def)
  have "\<bar>foldl float_add 0 xs - (0 + sum_list xs)\<bar>
          \<le> of_nat (0 + length xs) * (20 * of_nat (length xs) / 2 ^ 53)"
    by (rule py_sum_erro_passo[OF lim _ len]) simp_all
  then have "\<bar>py_sum xs - sum_list xs\<bar> \<le> N * d" by (simp add: py_sum_def dJ N_def)
  then have "\<bar>py_sum xs - sum_list xs\<bar> / N \<le> d" using Npos by (simp add: pos_divide_le_eq mult.commute)
  moreover have "t - mu = (py_sum xs - sum_list xs) / N" by (simp add: t_def mu_def diff_divide_distrib)
  ultimately have tm: "\<bar>t - mu\<bar> \<le> d" using Npos by (simp add: abs_divide)
  have "\<bar>sum_list xs\<bar> \<le> N * 10" using abs_sum_list_le[OF lim] by (simp add: N_def)
  then have "\<bar>sum_list xs\<bar> / N \<le> 10" using Npos by (simp add: pos_divide_le_eq mult.commute)
  then have mu10: "\<bar>mu\<bar> \<le> 10" using Npos by (simp add: mu_def abs_divide)
  have "\<bar>bin64 t - t\<bar> \<le> (\<bar>t\<bar> + 1) * u"
    using bin64_erro_unidade[of t] by (simp add: u_def)
  also have "\<dots> \<le> 20 * u"
  proof (rule mult_right_mono)
    show "\<bar>t\<bar> + 1 \<le> 20" using tm mu10 d52 by linarith
  qed (rule upos)
  finally have "\<bar>bin64 t - mu\<bar> \<le> 20 * u + d" using tm by linarith
  also have "\<dots> = 5 * of_nat (length xs + 1) / 2 ^ 51" by (simp add: d_def u_def N_def)
  finally show ?thesis by (simp only: t_def mu_def N_def)
qed

lemma media_nao_vazia:
  "fs \<noteq> [] \<Longrightarrow>
   calcular_media_avaliacao fs
     = Inr (bin64 (py_sum (map avaliacao fs) / of_nat (length fs)))"
  by (simp add: calcular_media_avaliacao_def float_truediv_def Let_def)

lemma media_decimos:
  "calcular_media_avaliacao catalogo_decimos = Inr (7205759403792795 / 72057594037927936)"
  by code_simp

lemma max_decimos:
  "Max (avaliacao ` set catalogo_decimos) = 7205759403792794 / 72057594037927936"
  by (simp add: catalogo_decimos_def filmes_com_avaliacoes_def filme_json_def)

lemma media_7_9_8_10:
  "calcular_media_avaliacao (filmes_com_avaliacoes [7, 9, 8, 10]) = Inr (17 / 2)"
  by code_simp

text \<open>
  The bounds of C6 fail on three movies rated 0.1. The first two additions are exact; the
  third sum, \<open>3 \<times> 3602879701896397 / 2^55\<close>, lies halfway between two binary64 numbers and
  is rounded up to \<open>5404319552844596 / 2^54\<close>; a third of that is rounded up to
  \<open>7205759403792795 / 2^56\<close>, the binary64 number after \<open>0.1\<close>. So the mean returned is
  greater than the largest rating, \<open>7205759403792794 / 2^56\<close>.
\<close>

theorem media_acima_do_maximo:
  "catalogo_decimos \<noteq> [] \<and>
   calcular_media_avaliacao catalogo_decimos = Inr (7205759403792795 / 72057594037927936) \<and>
   Max (avaliacao ` set catalogo_decimos) = 7205759403792794 / 72057594037927936 \<and>
   \<not> (7205759403792795 / 72057594037927936 \<le> Max (avaliacao ` set catalogo_decimos))"
proof (intro conjI)
  show "catalogo_decimos \<noteq> []"
    by (simp add: catalogo_decimos_def filmes_com_avaliacoes_def)
  show "calcular_media_avaliacao catalogo_decimos = Inr (7205759403792795 / 72057594037927936)"
    by (rule media_decimos)
  show "Max (avaliacao ` set catalogo_decimos) = 7205759403792794 / 72057594037927936"
    by (rule max_decimos)
  show "\<not> (7205759403792795 / 72057594037927936 \<le> Max (avaliacao ` set catalogo_decimos))"
    unfolding max_decimos by simp
qed

text \<open>
  C6, with a margin for the rounding. On an empty catalogue \<open>calcular_media_avaliacao\<close>
  returns 0. On a non-empty catalogue of \<open>n\<close> movies, \<open>n\<close> at most \<open>2^50\<close>, whose ratings
  have magnitude at most 10, the mean it returns is within \<open>5 (n + 1) / 2^51\<close> of the
  exact mean of the ratings; so it is at least the smallest rating less that margin and
  at most the largest rating plus that margin.
\<close>

theorem media_dentro_da_margem:
  "calcular_media_avaliacao [] = Inr 0 \<and>
   (fs \<noteq> [] \<and> list_all (\<lambda>f. \<bar>avaliacao f\<bar> \<le> 10) fs \<and> length fs \<le> 2 ^ 50 \<longrightarrow>
      (\<exists>m. calcular_media_avaliacao fs = Inr m \<and>
           \<bar>m - sum_list (map avaliacao fs) / of_nat (length fs)\<bar>
             \<le> 5 * of_nat (length fs + 1) / 2 ^ 51 \<and>
           Min (avaliacao ` set fs) - 5 * of_nat (length fs + 1) / 2 ^ 51 \<le> m \<and>
           m \<le> Max (avaliacao ` set fs) + 5 * of_nat (length fs + 1) / 2 ^ 51))"
proof (intro conjI impI)
  show "calcular_media_avaliacao [] = Inr 0"
    by (simp add: calcular_media_avaliacao_def)
next
  assume h: "fs \<noteq> [] \<and> list_all (\<lambda>f. \<bar>avaliacao f\<bar> \<le> 10) fs \<and> length fs \<le> 2 ^ 50"
  then have ne: "fs \<noteq> []" and len: "length fs \<le> 2 ^ 50" by simp_all
  let ?xs = "map avaliacao fs"
  let ?m = "bin64 (py_sum ?xs / of_nat (length fs))"
  let ?mu = "sum_list ?xs / of_nat (length fs)"
  let ?g = "5 * of_nat (length fs + 1) / (2 ^ 51 :: rat)"
  have ne': "?xs \<noteq> []" using ne by simp
  have lim: "\<forall>x\<in>set ?xs. \<bar>x\<bar> \<le> 10" using h by (simp add: list_all_iff)
  have len': "length ?xs \<le> 2 ^ 50" using len by simp
  from media_erro[OF ne' lim len']
  have e: "\<bar>?m - ?mu\<bar> \<le> ?g" by (simp only: length_map)
  from media_exata_entre_extremos[OF ne]
  have lo: "Min (avaliacao ` set fs) \<le> ?mu" and hi: "?mu \<le> Max (avaliacao ` set fs)"
    by blast+
  have "calcular_media_avaliacao fs = Inr ?m" using ne by (rule media_nao_vazia)
  moreover have "Min (avaliacao ` set fs) - ?g \<le> ?m" using e lo by linarith
  moreover have "?m \<le> Max (avaliacao ` set fs) + ?g" using e hi by linarith
  ultimately show "\<exists>m. calcular_media_avaliacao fs = Inr m \<and>
           \<bar>m - sum_list (map avaliacao fs) / of_nat (length fs)\<bar>
             \<le> 5 * of_nat (length fs + 1) / 2 ^ 51 \<and>
           Min (avaliacao ` set fs) - 5 * of_nat (length fs + 1) / 2 ^ 51 \<le> m \<and>
           m \<le> Max (avaliacao ` set fs) + 5 * of_nat (length fs + 1) / 2 ^ 51"
    using e by blast
qed

theorem media_dentro_da_margem_witness:
  "filmes_com_avaliacoes [7, 9, 8, 10] \<noteq> [] \<and>
   list_all (\<lambda>f. \<bar>avaliacao f\<bar> \<le> 10) (filmes_com_avaliacoes [7, 9, 8, 10]) \<and>
   length (filmes_com_avaliacoes [7, 9, 8, 10]) \<le> 2 ^ 50 \<and>
   calcular_media_avaliacao (filmes_com_avaliacoes [7, 9, 8, 10]) = Inr (17 / 2) \<and>
   Min (avaliacao ` set (filmes_com_avaliacoes [7, 9, 8, 10]))
     - 5 * of_nat (length (filmes_com_avaliacoes [7, 9, 8, 10]) + 1) / 2 ^ 51 \<le> 17 / 2 \<and>
   17 / 2 \<le> Max (avaliacao ` set (filmes_com_avaliacoes [7, 9, 8, 10]))
     + 5 * of_nat (length (filmes_com_avaliacoes [7, 9, 8, 10]) + 1) / 2 ^ 51"
proof -
  let ?c = "filmes_com_avaliacoes [7, 9, 8, 10]"
  have ne: "?c \<noteq> []" by (simp add: filmes_com_avaliacoes_def)
  have lim: "list_all (\<lambda>f. \<bar>avaliacao f\<bar> \<le> 10) ?c"
    by (simp add: filmes_com_avaliacoes_def filme_json_def)
  have len: "length ?c \<le> 2 ^ 50" by (simp add: filmes_com_avaliacoes_def)
  from media_dentro_da_margem[of ?c] ne lim len
  obtain m where m: "calcular_media_avaliacao ?c = Inr m"
      "Min (avaliacao ` set ?c) - 5 * of_nat (length ?c + 1) / 2 ^ 51 \<le> m"
      "m \<le> Max (avaliacao ` set ?c) + 5 * of_nat (length ?c + 1) / 2 ^ 51"
    by blast
  from m(1) have "m = 17 / 2" by (simp only: media_7_9_8_10 sum.inject)
  with m(2,3) ne lim len media_7_9_8_10 show ?thesis by (simp only: simp_thms)
qed

section \<open>Median rating\<close>

lemma py_getitem_nat: "k < length xs \<Longrightarrow> py_getitem xs (int k) = Inr (xs ! k)"
  by (simp add: py_getitem_def)

lemma mediana_nao_vazia:
  assumes ne: "fs \<noteq> []"
  shows "calcular_mediana_avaliacao fs =
        Inr (if even (length fs)
             then (sort (map avaliacao fs) ! (length fs div 2 - 1)
                   + sort (map avaliacao fs) ! (length fs div 2)) / 2
             else sort (map avaliacao fs) ! (length fs div 2))"
proof -
  let ?s = "sort (map avaliacao fs)"
  let ?n = "length fs"
  have len: "length ?s = ?n" by simp
  have n0: "0 < ?n" using ne by simp
  have mid: "?n div 2 < length ?s" using n0 by simp
  have g2: "py_getitem ?s (int ?n div 2) = Inr (?s ! (?n div 2))"
    using py_getitem_nat[OF mid] by (simp add: zdiv_int)
  show "calcular_mediana_avaliacao fs =
        Inr (if even ?n then (?s ! (?n div 2 - 1) + ?s ! (?n div 2)) / 2 else ?s ! (?n div 2))"
  proof (cases "even ?n")
    case True
    then have two: "2 \<le> ?n" using n0 by presburger
    then have lo: "?n div 2 - 1 < length ?s" by simp
    have "int ?n div 2 - 1 = int (?n div 2 - 1)" using two by (simp add: zdiv_int)
    then have g1: "py_getitem ?s (int ?n div 2 - 1) = Inr (?s ! (?n div 2 - 1))"
      using py_getitem_nat[OF lo] by simp
    have ev: "int ?n mod 2 = 0" using True by presburger
    show ?thesis
      using ne True ev g1 g2
      by (simp add: calcular_mediana_avaliacao_def bind_err_def py_truediv_def Let_def)
  next
    case False
    then have od: "int ?n mod 2 \<noteq> 0" by presburger
    show ?thesis
      using ne False od g2
      by (simp add: calcular_mediana_avaliacao_def Let_def)
  qed
qed

text \<open>
  C2. On an empty catalogue \<open>calcular_mediana_avaliacao\<close> returns 0. Otherwise it sorts
  the ratings in ascending order and, for \<open>n\<close> of them, returns the average of the
  ratings at the positions \<open>n div 2 - 1\<close> and \<open>n div 2\<close> (counted from 0) when \<open>n\<close> is
  even and the rating at position \<open>n div 2\<close> when \<open>n\<close> is odd; no index is out of range.
  On the ratings 3, 5, 7 it returns 5 and on 2, 4, 6, 8 it returns 5.
\<close>

theorem mediana_do_meio:
  "calcular_mediana_avaliacao [] = Inr 0 \<and>
   (fs \<noteq> [] \<longrightarrow>
      calcular_mediana_avaliacao fs =
        Inr (if even (length fs)
             then (sort (map avaliacao fs) ! (length fs div 2 - 1)
                   + sort (map avaliacao fs) ! (length fs div 2)) / 2
             else sort (map avaliacao fs) ! (length fs div 2))) \<and>
   calcular_mediana_avaliacao (filmes_com_avaliacoes [3, 5, 7]) = Inr 5 \<and>
   calcular_mediana_avaliacao (filmes_com_avaliacoes [2, 4, 6, 8]) = Inr 5"
proof (intro conjI impI)
  show "calcular_mediana_avaliacao [] = Inr 0"
    by (simp add: calcular_mediana_avaliacao_def)
next
  assume ne: "fs \<noteq> []"
  then show "calcular_mediana_avaliacao fs =
        Inr (if even (length fs)
             then (sort (map avaliacao fs) ! (length fs div 2 - 1)
                   + sort (map avaliacao fs) ! (length fs div 2)) / 2
             else sort (map avaliacao fs) ! (length fs div 2))"
    by (rule mediana_nao_vazia)
next
  show "calcular_mediana_avaliacao (filmes_com_avaliacoes [3, 5, 7]) = Inr 5"
    by (simp add: calcular_mediana_avaliacao_def filmes_com_avaliacoes_def filme_json_def
        py_getitem_def bind_err_def py_truediv_def Let_def)
  show "calcular_mediana_avaliacao (filmes_com_avaliacoes [2, 4, 6, 8]) = Inr 5"
    by (simp add: calcular_mediana_avaliacao_def filmes_com_avaliacoes_def filme_json_def
        py_getitem_def bind_err_def py_truediv_def Let_def)
qed

theorem mediana_do_meio_witness:
  "filmes_com_avaliacoes [8, 2, 6, 4] \<noteq> [] \<and>
   calcular_mediana_avaliacao (filmes_com_avaliacoes [8, 2, 6, 4]) = Inr 5"
proof -
  have ne: "filmes_com_avaliacoes [8, 2, 6, 4] \<noteq> []"
    by (simp add: filmes_com_avaliacoes_def)
  have s: "sort (map avaliacao (filmes_com_avaliacoes [8, 2, 6, 4])) = [2, 4, 6, 8]"
    by (simp add: filmes_com_avaliacoes_def filme_json_def)
  have l: "length (filmes_com_avaliacoes [8, 2, 6, 4]) = 4"
    by (simp add: filmes_com_avaliacoes_def)
  from mediana_do_meio[of "filmes_com_avaliacoes [8, 2, 6, 4]"] ne
  have "calcular_mediana_avaliacao (filmes_com_avaliacoes [8, 2, 6, 4]) =
        Inr (if even (length (filmes_com_avaliacoes [8, 2, 6, 4]))
             then (sort (map avaliacao (filmes_com_avaliacoes [8, 2, 6, 4])) ! (length (filmes_com_avaliacoes [8, 2, 6, 4]) div 2 - 1)
                   + sort (map avaliacao (filmes_com_avaliacoes [8, 2, 6, 4])) ! (length (filmes_com_avaliacoes [8, 2, 6, 4]) div 2)) / 2
             else sort (map avaliacao (filmes_com_avaliacoes [8, 2, 6, 4])) ! (length (filmes_com_avaliacoes [8, 2, 6, 4]) div 2))"
    by blast
  then show ?thesis using ne unfolding s l by simp
qed

section \<open>Best and worst rated movie, mean duration\<close>

lemma py_int_of_int: "py_int (of_int z) = z"
  by (simp add: py_int_def)

lemma py_int_nonneg: "0 \<le> x \<Longrightarrow> py_int x = \<lfloor>x\<rfloor>"
  by (simp add: py_int_def)

lemma resto_60: "0 \<le> m - 60 * rat_of_int \<lfloor>m / 60\<rfloor> \<and> m - 60 * rat_of_int \<lfloor>m / 60\<rfloor> < 60"
proof -
  have "rat_of_int \<lfloor>m / 60\<rfloor> \<le> m / 60" by (rule of_int_floor_le)
  moreover have "m / 60 < rat_of_int \<lfloor>m / 60\<rfloor> + 1" by linarith
  ultimately show ?thesis by (simp add: field_simps)
qed

lemma adicionais_total:
  assumes "fs \<noteq> []"
  shows "\<exists>i<length fs. \<exists>j<length fs.
     exibir_estatisticas_adicionais fs =
       Inr \<lparr>porcentagem = of_nat (length (filmes_em_streaming fs)) / of_nat (length fs) * 100,
            melhor_avaliado = fs ! i, pior_avaliado = fs ! j,
            duracao_media_min =
              rat_of_int (sum_list (map (\<lambda>f. duracao_em_minutos (duracao f)) fs)) / of_nat (length fs),
            horas = \<lfloor>rat_of_int (sum_list (map (\<lambda>f. duracao_em_minutos (duracao f)) fs)) / of_nat (length fs) / 60\<rfloor>,
            minutos = \<lfloor>rat_of_int (sum_list (map (\<lambda>f. duracao_em_minutos (duracao f)) fs)) / of_nat (length fs)
               - 60 * of_int \<lfloor>rat_of_int (sum_list (map (\<lambda>f. duracao_em_minutos (duracao f)) fs)) / of_nat (length fs) / 60\<rfloor>\<rfloor>\<rparr> \<and>
     (\<forall>k<length fs. avaliacao (fs ! k) \<le> avaliacao (fs ! i)) \<and>
     (\<forall>k<i. avaliacao (fs ! k) < avaliacao (fs ! i)) \<and>
     (\<forall>k<length fs. avaliacao (fs ! j) \<le> avaliacao (fs ! k)) \<and>
     (\<forall>k<j. avaliacao (fs ! j) < avaliacao (fs ! k))"
proof -
  let ?m = "rat_of_int (sum_list (map (\<lambda>f. duracao_em_minutos (duracao f)) fs)) / of_nat (length fs)"
  from py_max_key_first[OF assms, of avaliacao] obtain i where i: "i < length fs"
    "py_max_key avaliacao fs = Inr (fs ! i)" "\<forall>k<length fs. avaliacao (fs ! k) \<le> avaliacao (fs ! i)"
    "\<forall>k<i. avaliacao (fs ! k) < avaliacao (fs ! i)"
    by blast
  from py_min_key_first[OF assms, of avaliacao] obtain j where j: "j < length fs"
    "py_min_key avaliacao fs = Inr (fs ! j)" "\<forall>k<length fs. avaliacao (fs ! j) \<le> avaliacao (fs ! k)"
    "\<forall>k<j. avaliacao (fs ! j) < avaliacao (fs ! k)"
    by blast
  have h: "py_int (of_int \<lfloor>?m / 60\<rfloor>) = \<lfloor>?m / 60\<rfloor>" by (rule py_int_of_int)
  have mi: "py_int (?m - 60 * of_int \<lfloor>?m / 60\<rfloor>) = \<lfloor>?m - 60 * of_int \<lfloor>?m / 60\<rfloor>\<rfloor>"
    using resto_60[of ?m] by (intro py_int_nonneg) simp
  from adicionais_nonempty[OF assms i(2) j(2)] h mi i j show ?thesis
    by (intro exI[of _ i] conjI exI[of _ j]) simp_all
qed



lemma primeiro_maior_unico:
  fixes g :: "nat \<Rightarrow> 'k::linorder"
  assumes "i < n" "j < n" "\<forall>k<n. g k \<le> g i" "\<forall>k<i. g k < g i" "\<forall>k<n. g k \<le> g j" "\<forall>k<j. g k < g j"
  shows "i = j"
proof (rule ccontr)
  assume "i \<noteq> j"
  then consider "i < j" | "j < i" by linarith
  then show False
  proof cases
    case 1
    with assms(6) have "g i < g j" by blast
    moreover from assms(2,3) have "g j \<le> g i" by blast
    ultimately show False by simp
  next
    case 2
    with assms(4) have "g j < g i" by blast
    moreover from assms(1,5) have "g i \<le> g j" by blast
    ultimately show False by simp
  qed
qed

lemma primeiro_menor_unico:
  fixes g :: "nat \<Rightarrow> 'k::linorder"
  assumes "i < n" "j < n" "\<forall>k<n. g i \<le> g k" "\<forall>k<i. g i < g k" "\<forall>k<n. g j \<le> g k" "\<forall>k<j. g j < g k"
  shows "i = j"
proof (rule ccontr)
  assume "i \<noteq> j"
  then consider "i < j" | "j < i" by linarith
  then show False
  proof cases
    case 1
    with assms(6) have "g j < g i" by blast
    moreover from assms(2,3) have "g i \<le> g j" by blast
    ultimately show False by simp
  next
    case 2
    with assms(4) have "g i < g j" by blast
    moreover from assms(1,5) have "g j \<le> g i" by blast
    ultimately show False by simp
  qed
qed

text \<open>
  C7. On a catalogue that is not empty the best rated movie is the one at the first
  position that holds the largest rating and the worst rated movie the one at the first
  position that holds the smallest rating, as for the durations.
\<close>

theorem extremos_avaliacao_first:
  "fs \<noteq> [] \<longrightarrow>
     (\<exists>r. \<exists>i<length fs. \<exists>j<length fs.
        exibir_estatisticas_adicionais fs = Inr r \<and>
        melhor_avaliado r = fs ! i \<and> pior_avaliado r = fs ! j \<and>
        (\<forall>k<length fs. avaliacao (fs ! k) \<le> avaliacao (fs ! i)) \<and>
        (\<forall>k<i. avaliacao (fs ! k) < avaliacao (fs ! i)) \<and>
        (\<forall>k<length fs. avaliacao (fs ! j) \<le> avaliacao (fs ! k)) \<and>
        (\<forall>k<j. avaliacao (fs ! j) < avaliacao (fs ! k)))"
proof
  assume ne: "fs \<noteq> []"
  from adicionais_total[OF ne] obtain i j r where
    "i < length fs" "j < length fs" "exibir_estatisticas_adicionais fs = Inr r"
    "melhor_avaliado r = fs ! i" "pior_avaliado r = fs ! j"
    "\<forall>k<length fs. avaliacao (fs ! k) \<le> avaliacao (fs ! i)"
    "\<forall>k<i. avaliacao (fs ! k) < avaliacao (fs ! i)"
    "\<forall>k<length fs. avaliacao (fs ! j) \<le> avaliacao (fs ! k)"
    "\<forall>k<j. avaliacao (fs ! j) < avaliacao (fs ! k)"
    by force
  then show "\<exists>r. \<exists>i<length fs. \<exists>j<length fs.
        exibir_estatisticas_adicionais fs = Inr r \<and>
        melhor_avaliado r = fs ! i \<and> pior_avaliado r = fs ! j \<and>
        (\<forall>k<length fs. avaliacao (fs ! k) \<le> avaliacao (fs ! i)) \<and>
        (\<forall>k<i. avaliacao (fs ! k) < avaliacao (fs ! i)) \<and>
        (\<forall>k<length fs. avaliacao (fs ! j) \<le> avaliacao (fs ! k)) \<and>
        (\<forall>k<j. avaliacao (fs ! j) < avaliacao (fs ! k))"
    by blast
qed

lemma avaliacoes_empates:
  "k < 4 \<Longrightarrow> avaliacao (catalogo_empates ! k) = [7, 9, 9, 7] ! k"
proof -
  assume k: "k < 4"
  have "map avaliacao catalogo_empates = [7, 9, 9, 7]"
    by (simp add: catalogo_empates_def filme_json_def)
  moreover have "length catalogo_empates = 4" by (simp add: catalogo_empates_def)
  ultimately show ?thesis using k by (metis nth_map)
qed

theorem extremos_avaliacao_first_witness:
  "catalogo_empates \<noteq> [] \<and>
   (\<exists>r. exibir_estatisticas_adicionais catalogo_empates = Inr r \<and>
      melhor_avaliado r = filme_json ''B'' 9 ''Y'' (2, 0) False \<and>
      pior_avaliado r = filme_json ''A'' 7 ''X'' (1, 30) True)"
proof -
  have ne: "catalogo_empates \<noteq> []" by (simp add: catalogo_empates_def)
  have len: "length catalogo_empates = 4" by (simp add: catalogo_empates_def)
  let ?g = "\<lambda>k. avaliacao (catalogo_empates ! k)"
  from extremos_avaliacao_first[of catalogo_empates] ne
  obtain r i j where ij: "i < 4" "j < 4"
    "exibir_estatisticas_adicionais catalogo_empates = Inr r"
    "melhor_avaliado r = catalogo_empates ! i" "pior_avaliado r = catalogo_empates ! j"
    "\<forall>k<4. ?g k \<le> ?g i" "\<forall>k<i. ?g k < ?g i" "\<forall>k<4. ?g j \<le> ?g k" "\<forall>k<j. ?g j < ?g k"
    unfolding len by blast
  have a1: "\<forall>k<4. ?g k \<le> ?g 1"
  proof (intro allI impI)
    fix k :: nat assume "k < 4"
    then consider "k = 0" | "k = 1" | "k = 2" | "k = 3" by linarith
    then show "?g k \<le> ?g 1"
      using avaliacoes_empates[of 0] avaliacoes_empates[of 1] avaliacoes_empates[of 2]
        avaliacoes_empates[of 3] by cases simp_all
  qed
  have a2: "\<forall>k<1. ?g k < ?g 1"
    using avaliacoes_empates[of 0] avaliacoes_empates[of 1] by simp
  have b1: "\<forall>k<4. ?g 0 \<le> ?g k"
  proof (intro allI impI)
    fix k :: nat assume "k < 4"
    then consider "k = 0" | "k = 1" | "k = 2" | "k = 3" by linarith
    then show "?g 0 \<le> ?g k"
      using avaliacoes_empates[of 0] avaliacoes_empates[of 1] avaliacoes_empates[of 2]
        avaliacoes_empates[of 3] by cases simp_all
  qed
  have b2: "\<forall>k<0. ?g 0 < ?g k" by simp
  have "i = 1"
    by (rule primeiro_maior_unico[of i 4 1 ?g, OF ij(1) _ ij(6) ij(7) a1 a2]) simp
  moreover have "j = 0"
    by (rule primeiro_menor_unico[of j 4 0 ?g, OF ij(2) _ ij(8) ij(9) b1 b2]) simp
  ultimately have "melhor_avaliado r = filme_json ''B'' 9 ''Y'' (2, 0) False"
    "pior_avaliado r = filme_json ''A'' 7 ''X'' (1, 30) True"
    using ij(4,5) by (simp_all add: catalogo_empates_def)
  with ne ij(3) show ?thesis by blast
qed

section \<open>Counting directors\<close>

lemma contar_keys:
  "map fst (contar x c) = (if x \<in> set (map fst c) then map fst c else map fst c @ [x])"
proof (induction c)
  case Nil
  show ?case by simp
next
  case (Cons p c)
  obtain k n where p: "p = (k, n)" by (cases p)
  show ?case
  proof (cases "k = x")
    case True
    with p show ?thesis by simp
  next
    case False
    with p Cons show ?thesis by simp
  qed
qed

lemma contar_lookup:
  "map_of (contar x c) k =
     (if k = x then Some (case map_of c x of None \<Rightarrow> 1 | Some n \<Rightarrow> Suc n) else map_of c k)"
  by (induction c) auto

lemma Counter_snoc: "Counter (ds @ [x]) = contar x (Counter ds)"
  by (simp add: Counter_def)

lemma Counter_keys_snoc:
  "map fst (Counter (ds @ [x])) =
     (if x \<in> set (map fst (Counter ds)) then map fst (Counter ds) else map fst (Counter ds) @ [x])"
  by (simp only: Counter_snoc contar_keys)

lemma Counter_keys: "set (map fst (Counter ds)) = set ds \<and> distinct (map fst (Counter ds))"
proof (induction ds rule: rev_induct)
  case Nil
  show ?case by (simp add: Counter_def)
next
  case (snoc x ds)
  then show ?case unfolding Counter_keys_snoc by auto
qed

lemma Counter_lookup:
  "map_of (Counter ds) k = (if k \<in> set ds then Some (count_list ds k) else None)"
proof (induction ds rule: rev_induct)
  case Nil
  show ?case by (simp add: Counter_def)
next
  case (snoc x ds)
  show ?case unfolding Counter_snoc contar_lookup using snoc by auto
qed

lemma Counter_counts:
  assumes "(k, c) \<in> set (Counter ds)"
  shows "k \<in> set ds \<and> c = count_list ds k"
proof -
  have d: "distinct (map fst (Counter ds))" using Counter_keys by blast
  from assms d have "map_of (Counter ds) k = Some c" by simp
  then show ?thesis unfolding Counter_lookup by (auto split: if_splits)
qed

lemma Counter_member:
  assumes "k \<in> set ds"
  shows "(k, count_list ds k) \<in> set (Counter ds)"
proof -
  from assms have "map_of (Counter ds) k = Some (count_list ds k)"
    by (simp add: Counter_lookup)
  then show ?thesis by (rule map_of_SomeD)
qed

lemma Counter_set: "set (Counter ds) = (\<lambda>k. (k, count_list ds k)) ` set ds"
  using Counter_counts Counter_member by fastforce

lemma Counter_distinct: "distinct (Counter ds)"
  using Counter_keys[of ds] by (simp add: distinct_map)

lemma Counter_empty: "Counter ds = [] \<longleftrightarrow> ds = []"
  using Counter_keys[of ds] by (metis list.map_disc_iff set_empty)

lemma py_max_nat:
  fixes xs :: "nat list"
  assumes "xs \<noteq> []"
  shows "py_max_key (\<lambda>c. c) xs = Inr (Max (set xs))"
proof -
  from py_max_key_first[OF assms, of "\<lambda>c. c"] obtain i where i: "i < length xs"
    "py_max_key (\<lambda>c. c) xs = Inr (xs ! i)" "\<forall>k<length xs. xs ! k \<le> xs ! i"
    by blast
  have "Max (set xs) = xs ! i"
  proof (rule Max_eqI)
    show "finite (set xs)" by simp
    show "xs ! i \<in> set xs" using i(1) by simp
    fix y assume "y \<in> set xs"
    then obtain k where "k < length xs" "y = xs ! k" by (auto simp: in_set_conv_nth)
    with i(3) show "y \<le> xs ! i" by simp
  qed
  with i(2) show ?thesis by simp
qed

lemma moda_diretores_valor:
  assumes "fs \<noteq> []"
  shows "moda_diretores fs =
     Inr (filter (\<lambda>(d, c). c = Max (count_list (map diretor fs) ` set (map diretor fs)))
            (Counter (map diretor fs)))"
proof -
  let ?ds = "map diretor fs"
  have ne: "Counter ?ds \<noteq> []" using assms by (simp add: Counter_empty)
  then have ne': "map snd (Counter ?ds) \<noteq> []" by simp
  have "set (map snd (Counter ?ds)) = count_list ?ds ` set ?ds"
    unfolding set_map Counter_set by (simp add: image_image)
  with py_max_nat[OF ne'] have
    "py_max_key (\<lambda>c. c) (map snd (Counter ?ds)) = Inr (Max (count_list ?ds ` set ?ds))"
    by simp
  with assms ne show ?thesis
    by (simp add: moda_diretores_def bind_err_def Let_def)
qed

text \<open>
  C4. On an empty catalogue \<open>moda_diretores\<close> returns the empty list. Otherwise it returns,
  once each, exactly the pairs of a director and the number of movies of that director for
  the directors whose number is the largest over the catalogue. For the directors A, B, A,
  B, C it returns (A, 2) and (B, 2) and not (C, 1).
\<close>

theorem moda_diretores_todos_os_maximos:
  "moda_diretores [] = Inr [] \<and>
   (fs \<noteq> [] \<longrightarrow>
      (\<exists>ms. moda_diretores fs = Inr ms \<and> distinct ms \<and>
         set ms = {(d, c). d \<in> set (map diretor fs) \<and> c = count_list (map diretor fs) d \<and>
                     c = Max (count_list (map diretor fs) ` set (map diretor fs))})) \<and>
   moda_diretores catalogo_diretores = Inr [(''A'', 2), (''B'', 2)]"
proof (intro conjI impI)
  show "moda_diretores [] = Inr []" by (simp add: moda_diretores_def)
next
  assume ne: "fs \<noteq> []"
  let ?ds = "map diretor fs"
  let ?m = "Max (count_list ?ds ` set ?ds)"
  let ?ms = "filter (\<lambda>(d, c). c = ?m) (Counter ?ds)"
  have "distinct ?ms" using Counter_distinct by (rule distinct_filter)
  moreover have "set ?ms = {(d, c). d \<in> set ?ds \<and> c = count_list ?ds d \<and> c = ?m}"
    unfolding set_filter Counter_set by auto
  ultimately show "\<exists>ms. moda_diretores fs = Inr ms \<and> distinct ms \<and>
         set ms = {(d, c). d \<in> set ?ds \<and> c = count_list ?ds d \<and> c = ?m}"
    using moda_diretores_valor[OF ne] by blast
next
  show "moda_diretores catalogo_diretores = Inr [(''A'', 2), (''B'', 2)]"
    by (simp add: moda_diretores_def catalogo_diretores_def filme_json_def Counter_def
        py_max_key_def bind_err_def Let_def)
qed


theorem moda_diretores_todos_os_maximos_witness:
  "catalogo_diretores \<noteq> [] \<and>
   {(d, c). d \<in> set (map diretor catalogo_diretores) \<and>
            c = count_list (map diretor catalogo_diretores) d \<and>
            c = Max (count_list (map diretor catalogo_diretores) ` set (map diretor catalogo_diretores))}
     = {(''A'', 2), (''B'', 2)}"
proof -
  have ne: "catalogo_diretores \<noteq> []" by (simp add: catalogo_diretores_def)
  from moda_diretores_todos_os_maximos[of catalogo_diretores] ne
  obtain ms where ms: "moda_diretores catalogo_diretores = Inr ms"
    "set ms = {(d, c). d \<in> set (map diretor catalogo_diretores) \<and>
            c = count_list (map diretor catalogo_diretores) d \<and>
            c = Max (count_list (map diretor catalogo_diretores) ` set (map diretor catalogo_diretores))}"
    by blast
  from moda_diretores_todos_os_maximos[of catalogo_diretores]
  have "moda_diretores catalogo_diretores = Inr [(''A'', 2), (''B'', 2)]" by blast
  with ms(1) have "ms = [(''A'', 2), (''B'', 2)]" by simp
  with ms(2) ne show ?thesis by auto
qed

lemma primeira_posicao_spec:
  "d \<in> set ds \<Longrightarrow>
     primeira_posicao d ds < length ds \<and> ds ! primeira_posicao d ds = d \<and>
     (\<forall>j<primeira_posicao d ds. ds ! j \<noteq> d)"
proof (induction ds)
  case Nil
  then show ?case by simp
next
  case (Cons y ds)
  show ?case
  proof (cases "d = y")
    case True
    then show ?thesis by simp
  next
    case False
    with Cons have ih: "primeira_posicao d ds < length ds" "ds ! primeira_posicao d ds = d"
      "\<forall>j<primeira_posicao d ds. ds ! j \<noteq> d" by auto
    have "\<forall>j<Suc (primeira_posicao d ds). (y # ds) ! j \<noteq> d"
    proof (intro allI impI)
      fix j assume "j < Suc (primeira_posicao d ds)"
      then show "(y # ds) ! j \<noteq> d" using False ih(3) by (cases j) auto
    qed
    with False ih show ?thesis by simp
  qed
qed

lemma primeira_posicao_append_in:
  "d \<in> set ds \<Longrightarrow> primeira_posicao d (ds @ es) = primeira_posicao d ds"
  by (induction ds) auto

lemma primeira_posicao_append_new:
  "x \<notin> set ds \<Longrightarrow> primeira_posicao x (ds @ [x]) = length ds"
  by (induction ds) auto

lemma Counter_keys_ordem:
  "sorted_wrt (<) (map (\<lambda>d. primeira_posicao d ds) (map fst (Counter ds)))"
proof (induction ds rule: rev_induct)
  case Nil
  show ?case by (simp add: Counter_def)
next
  case (snoc x ds)
  let ?ks = "map fst (Counter ds)"
  have ks: "set ?ks = set ds" using Counter_keys[of ds] by blast
  have same: "map (\<lambda>d. primeira_posicao d (ds @ [x])) ?ks = map (\<lambda>d. primeira_posicao d ds) ?ks"
    by (rule map_cong[OF refl]) (simp only: ks primeira_posicao_append_in)
  show ?case
  proof (cases "x \<in> set ds")
    case True
    then have "map fst (Counter (ds @ [x])) = ?ks" unfolding Counter_keys_snoc ks by simp
    with same have "map (\<lambda>d. primeira_posicao d (ds @ [x])) (map fst (Counter (ds @ [x])))
        = map (\<lambda>d. primeira_posicao d ds) ?ks" by (simp only:)
    with snoc show ?thesis by (simp only:)
  next
    case False
    then have k: "map fst (Counter (ds @ [x])) = ?ks @ [x]" unfolding Counter_keys_snoc ks by simp
    have lt: "\<forall>p\<in>set (map (\<lambda>d. primeira_posicao d ds) ?ks). p < length ds"
      using primeira_posicao_spec[of _ ds] ks by auto
    have "map (\<lambda>d. primeira_posicao d (ds @ [x])) (map fst (Counter (ds @ [x])))
        = map (\<lambda>d. primeira_posicao d ds) ?ks @ [length ds]"
      by (simp only: k map_append same list.map primeira_posicao_append_new[OF False])
    moreover have "sorted_wrt (<) (map (\<lambda>d. primeira_posicao d ds) ?ks @ [length ds])"
      using snoc lt by (simp only: sorted_wrt_append) simp
    ultimately show ?thesis by (simp only:)
  qed
qed

text \<open>
  C10. On a catalogue that is not empty, the pairs that \<open>moda_diretores\<close> returns stand in
  the order in which their directors first occur in the catalogue: the positions of the
  first occurrences are strictly increasing along the result.
\<close>

theorem moda_diretores_ordem_primeira_ocorrencia:
  "fs \<noteq> [] \<longrightarrow>
     (\<exists>ms. moda_diretores fs = Inr ms \<and>
        sorted_wrt (<) (map (\<lambda>m. primeira_posicao (fst m) (map diretor fs)) ms) \<and>
        (\<forall>m\<in>set ms.
           primeira_posicao (fst m) (map diretor fs) < length fs \<and>
           diretor (fs ! primeira_posicao (fst m) (map diretor fs)) = fst m \<and>
           (\<forall>j<primeira_posicao (fst m) (map diretor fs). diretor (fs ! j) \<noteq> fst m)))"
proof
  assume ne: "fs \<noteq> []"
  let ?ds = "map diretor fs"
  let ?m = "Max (count_list ?ds ` set ?ds)"
  let ?ms = "filter (\<lambda>(d, c). c = ?m) (Counter ?ds)"
  have "sorted_wrt (<) (map (\<lambda>d. primeira_posicao d ?ds) (map fst (Counter ?ds)))"
    by (rule Counter_keys_ordem)
  then have "sorted_wrt (\<lambda>a b. primeira_posicao (fst a) ?ds < primeira_posicao (fst b) ?ds) (Counter ?ds)"
    by (simp add: sorted_wrt_map)
  then have "sorted_wrt (\<lambda>a b. primeira_posicao (fst a) ?ds < primeira_posicao (fst b) ?ds) ?ms"
    by (rule sorted_wrt_filter)
  then have ord: "sorted_wrt (<) (map (\<lambda>m. primeira_posicao (fst m) ?ds) ?ms)"
    by (simp add: sorted_wrt_map)
  have pos: "\<forall>m\<in>set ?ms.
           primeira_posicao (fst m) ?ds < length fs \<and>
           diretor (fs ! primeira_posicao (fst m) ?ds) = fst m \<and>
           (\<forall>j<primeira_posicao (fst m) ?ds. diretor (fs ! j) \<noteq> fst m)"
  proof
    fix m assume "m \<in> set ?ms"
    then have "m \<in> set (Counter ?ds)" by simp
    then have d: "fst m \<in> set ?ds" using Counter_counts[of "fst m" "snd m" ?ds] by simp
    have sp: "primeira_posicao (fst m) ?ds < length ?ds \<and>
      ?ds ! primeira_posicao (fst m) ?ds = fst m \<and>
      (\<forall>j<primeira_posicao (fst m) ?ds. ?ds ! j \<noteq> fst m)"
      by (rule primeira_posicao_spec[OF d])
    have p: "primeira_posicao (fst m) ?ds < length fs"
      "?ds ! primeira_posicao (fst m) ?ds = fst m"
      "\<forall>j<primeira_posicao (fst m) ?ds. ?ds ! j \<noteq> fst m"
      using sp by (simp only: length_map, blast, blast)
    have "\<forall>j<primeira_posicao (fst m) ?ds. diretor (fs ! j) \<noteq> fst m"
    proof (intro allI impI)
      fix j assume j: "j < primeira_posicao (fst m) ?ds"
      with p(1) have "j < length fs" by simp
      with p(3) j show "diretor (fs ! j) \<noteq> fst m" by auto
    qed
    with p(1,2) show "primeira_posicao (fst m) ?ds < length fs \<and>
           diretor (fs ! primeira_posicao (fst m) ?ds) = fst m \<and>
           (\<forall>j<primeira_posicao (fst m) ?ds. diretor (fs ! j) \<noteq> fst m)"
      by simp
  qed
  from moda_diretores_valor[OF ne] ord pos
  show "\<exists>ms. moda_diretores fs = Inr ms \<and>
        sorted_wrt (<) (map (\<lambda>m. primeira_posicao (fst m) ?ds) ms) \<and>
        (\<forall>m\<in>set ms.
           primeira_posicao (fst m) ?ds < length fs \<and>
           diretor (fs ! primeira_posicao (fst m) ?ds) = fst m \<and>
           (\<forall>j<primeira_posicao (fst m) ?ds. diretor (fs ! j) \<noteq> fst m))"
    by blast
qed

lemma moda_catalogo_diretores_2:
  "moda_diretores catalogo_diretores_2 = Inr [(''B'', 2), (''A'', 2)]"
  by (simp add: moda_diretores_def catalogo_diretores_2_def filme_json_def Counter_def
      py_max_key_def bind_err_def Let_def)

theorem moda_diretores_ordem_primeira_ocorrencia_witness:
  "catalogo_diretores_2 \<noteq> [] \<and>
   moda_diretores catalogo_diretores_2 = Inr [(''B'', 2), (''A'', 2)] \<and>
   sorted_wrt (<) (map (\<lambda>m. primeira_posicao (fst m) (map diretor catalogo_diretores_2))
                     [(''B'', 2::nat), (''A'', 2)])"
proof -
  have ne: "catalogo_diretores_2 \<noteq> []" by (simp add: catalogo_diretores_2_def)
  from moda_diretores_ordem_primeira_ocorrencia[of catalogo_diretores_2] ne
  obtain ms where ms: "moda_diretores catalogo_diretores_2 = Inr ms"
    "sorted_wrt (<) (map (\<lambda>m. primeira_posicao (fst m) (map diretor catalogo_diretores_2)) ms)"
    by blast
  from ms(1) have "ms = [(''B'', 2), (''A'', 2)]" unfolding moda_catalogo_diretores_2 by simp
  with ms ne show ?thesis by simp
qed

section \<open>Movies rated above a limit\<close>

lemma mset_sort_reverse: "mset (sort_reverse f xs) = mset xs"
  by (simp add: sort_reverse_def)

lemma sort_reverse_descending: "sorted_wrt (\<lambda>a b. b \<le> a) (map f (sort_reverse f xs))"
proof -
  have "sorted (map f (sort_key f (rev xs)))" by (rule sorted_sort_key)
  then have "sorted_wrt (\<lambda>a b. b \<le> a) (rev (map f (sort_key f (rev xs))))"
    by (simp add: sorted_wrt_rev)
  then show ?thesis by (simp add: sort_reverse_def rev_map)
qed

lemma sort_reverse_stable:
  "filter (\<lambda>x. f x = k) (sort_reverse f xs) = filter (\<lambda>x. f x = k) xs"
proof -
  have "filter (\<lambda>x. f x = k) (sort_key f (rev xs)) = filter (\<lambda>x. f x = k) (rev xs)"
    by (rule sort_key_stable)
  then have "rev (filter (\<lambda>x. f x = k) (sort_key f (rev xs))) = filter (\<lambda>x. f x = k) xs"
    by (simp add: rev_filter)
  then show ?thesis by (simp add: sort_reverse_def rev_filter)
qed

lemma filmes_acima_avaliacao_eq:
  assumes "filmes self < length h"
  shows "filmes_acima_avaliacao self limite_arg ordenar_arg h =
     (let limite = (case limite_arg of None \<Rightarrow> 6 | Some l \<Rightarrow> l);
          ordenar = (case ordenar_arg of None \<Rightarrow> True | Some b \<Rightarrow> b);
          acima = filter (\<lambda>f. limite < avaliacao f) (h ! filmes self);
          ys = (if ordenar then sort_reverse avaliacao acima else acima)
      in if h ! filmes self = [] then ([], h) else (map nome ys, h @ [ys]))"
  using assms
  by (simp add: filmes_acima_avaliacao_def new_list_def list_sort_def Let_def nth_append
      split: option.splits)

lemma filmes_acima_nomes:
  assumes "filmes self < length h"
  shows "fst (filmes_acima_avaliacao self (Some t) (Some b) h) =
     map nome (if b then sort_reverse avaliacao (filter (\<lambda>f. t < avaliacao f) (h ! filmes self))
               else filter (\<lambda>f. t < avaliacao f) (h ! filmes self))"
  by (simp add: filmes_acima_avaliacao_eq[OF assms] Let_def sort_reverse_def)

lemma filmes_acima_frame:
  assumes "filmes self < length h"
  shows "take (length h) (snd (filmes_acima_avaliacao self limite_arg ordenar_arg h)) = h \<and>
         length h \<le> length (snd (filmes_acima_avaliacao self limite_arg ordenar_arg h))"
  by (simp add: filmes_acima_avaliacao_eq[OF assms] Let_def)

text \<open>
  C1. For an engine whose catalogue is a list object of the store and every limit \<open>t\<close>:
  without sorting, \<open>filmes_acima_avaliacao\<close> returns the names of the movies rated strictly
  above \<open>t\<close> (a movie rated exactly \<open>t\<close> is left out) in the order of the catalogue; with
  sorting it returns the names of the same movies, by descending rating, movies of equal
  rating in the order of the catalogue. A limit left out is 6 and a sorting flag left out
  is true, each whatever the other argument is. On the ratings 5, 6, 7, 8 the default call
  returns the names of 8 and 7 in that order, and the names of 7 and 8 without sorting.
\<close>

theorem filmes_acima_avaliacao_estrito_ordenado:
  assumes "filmes self < length h"
  shows
   "fst (filmes_acima_avaliacao self (Some t) (Some False) h)
      = map nome (filter (\<lambda>f. t < avaliacao f) (h ! filmes self)) \<and>
    (\<exists>ys. fst (filmes_acima_avaliacao self (Some t) (Some True) h) = map nome ys \<and>
       mset ys = mset (filter (\<lambda>f. t < avaliacao f) (h ! filmes self)) \<and>
       sorted_wrt (\<lambda>a b. b \<le> a) (map avaliacao ys) \<and>
       (\<forall>k. filter (\<lambda>f. avaliacao f = k) ys
            = filter (\<lambda>f. avaliacao f = k) (filter (\<lambda>f. t < avaliacao f) (h ! filmes self)))) \<and>
    filmes_acima_avaliacao self None ordenar_arg h = filmes_acima_avaliacao self (Some 6) ordenar_arg h \<and>
    filmes_acima_avaliacao self limite_arg None h = filmes_acima_avaliacao self limite_arg (Some True) h \<and>
    fst (filmes_acima_avaliacao motor None None [catalogo_5678]) = [''oito'', ''sete''] \<and>
    fst (filmes_acima_avaliacao motor None (Some False) [catalogo_5678]) = [''sete'', ''oito''] \<and>
    fst (filmes_acima_avaliacao motor (Some 6) (Some True) [catalogo_empates]) = [''B'', ''C'', ''A'', ''D'']"
proof (intro conjI)
  let ?acima = "filter (\<lambda>f. t < avaliacao f) (h ! filmes self)"
  show "fst (filmes_acima_avaliacao self (Some t) (Some False) h) = map nome ?acima"
    by (simp add: filmes_acima_nomes[OF assms])
  have "fst (filmes_acima_avaliacao self (Some t) (Some True) h)
      = map nome (sort_reverse avaliacao ?acima)"
    by (simp add: filmes_acima_nomes[OF assms])
  moreover have "mset (sort_reverse avaliacao ?acima) = mset ?acima"
    by (rule mset_sort_reverse)
  moreover have "sorted_wrt (\<lambda>a b. b \<le> a) (map avaliacao (sort_reverse avaliacao ?acima))"
    by (rule sort_reverse_descending)
  moreover have "\<forall>k. filter (\<lambda>f. avaliacao f = k) (sort_reverse avaliacao ?acima)
            = filter (\<lambda>f. avaliacao f = k) ?acima"
    by (simp add: sort_reverse_stable)
  ultimately show "\<exists>ys. fst (filmes_acima_avaliacao self (Some t) (Some True) h) = map nome ys \<and>
       mset ys = mset ?acima \<and> sorted_wrt (\<lambda>a b. b \<le> a) (map avaliacao ys) \<and>
       (\<forall>k. filter (\<lambda>f. avaliacao f = k) ys = filter (\<lambda>f. avaliacao f = k) ?acima)"
    by blast
  show "filmes_acima_avaliacao self None ordenar_arg h = filmes_acima_avaliacao self (Some 6) ordenar_arg h"
    by (simp add: filmes_acima_avaliacao_def)
  show "filmes_acima_avaliacao self limite_arg None h = filmes_acima_avaliacao self limite_arg (Some True) h"
    by (simp add: filmes_acima_avaliacao_def)
  have m: "filmes motor < length [catalogo_5678]" "filmes motor < length [catalogo_empates]"
    by (simp_all add: motor_def)
  show "fst (filmes_acima_avaliacao motor None None [catalogo_5678]) = [''oito'', ''sete'']"
    unfolding filmes_acima_avaliacao_eq[OF m(1)]
    by (simp add: Let_def motor_def catalogo_5678_def filme_json_def sort_reverse_def)
  show "fst (filmes_acima_avaliacao motor None (Some False) [catalogo_5678]) = [''sete'', ''oito'']"
    unfolding filmes_acima_avaliacao_eq[OF m(1)]
    by (simp add: Let_def motor_def catalogo_5678_def filme_json_def)
  show "fst (filmes_acima_avaliacao motor (Some 6) (Some True) [catalogo_empates]) = [''B'', ''C'', ''A'', ''D'']"
    unfolding filmes_acima_avaliacao_eq[OF m(2)]
    by (simp add: Let_def motor_def catalogo_empates_def filme_json_def sort_reverse_def)
qed

theorem filmes_acima_avaliacao_estrito_ordenado_witness:
  "filmes motor < length [catalogo_empates] \<and>
   fst (filmes_acima_avaliacao motor (Some 7) (Some False) [catalogo_empates]) = [''B'', ''C'']"
proof -
  have v: "filmes motor < length [catalogo_empates]" by (simp add: motor_def)
  from filmes_acima_avaliacao_estrito_ordenado[OF v, of 7]
  have "fst (filmes_acima_avaliacao motor (Some 7) (Some False) [catalogo_empates])
      = map nome (filter (\<lambda>f. 7 < avaliacao f) ([catalogo_empates] ! filmes motor))"
    by blast
  also have "\<dots> = [''B'', ''C'']"
    by (simp add: motor_def catalogo_empates_def filme_json_def)
  finally show ?thesis using v by simp
qed

section \<open>The catalogue is never changed\<close>

lemma filmes_acima_mesmo_catalogo:
  assumes "filmes self < length h" "filmes self < length h'" "h' ! filmes self = h ! filmes self"
  shows "fst (filmes_acima_avaliacao self limite_arg ordenar_arg h')
       = fst (filmes_acima_avaliacao self limite_arg ordenar_arg h)"
  by (simp add: filmes_acima_avaliacao_eq[OF assms(1)] filmes_acima_avaliacao_eq[OF assms(2)]
      assms(3) Let_def)

lemma filmes_acima_catalogo:
  assumes "filmes self < length h"
  shows "snd (filmes_acima_avaliacao self limite_arg ordenar_arg h) ! filmes self = h ! filmes self \<and>
         filmes self < length (snd (filmes_acima_avaliacao self limite_arg ordenar_arg h))"
  using assms by (simp add: filmes_acima_avaliacao_eq[OF assms] Let_def nth_append)

text \<open>
  C8. For an engine whose catalogue is a list object of the store, a call of any
  aggregate (also \<open>filmes_acima_avaliacao\<close> with sorting, which sorts a list in place)
  leaves every list object that existed before the call as it was, the catalogue among
  them, and the same call made again on the store that the first call left returns the
  same result.
\<close>

theorem chamar_nao_muda_catalogo:
  assumes "filmes self < length h"
  shows "take (length h) (snd (chamar self oper h)) = h \<and>
         snd (chamar self oper h) ! filmes self = h ! filmes self \<and>
         fst (chamar self oper (snd (chamar self oper h))) = fst (chamar self oper h)"
proof (cases oper)
  case (Acima limite ordenar)
  let ?h' = "snd (filmes_acima_avaliacao self limite ordenar h)"
  have c: "?h' ! filmes self = h ! filmes self" "filmes self < length ?h'"
    using filmes_acima_catalogo[OF assms] by simp_all
  have f: "take (length h) ?h' = h" using filmes_acima_frame[OF assms] by simp
  have r: "fst (filmes_acima_avaliacao self limite ordenar ?h')
         = fst (filmes_acima_avaliacao self limite ordenar h)"
    by (rule filmes_acima_mesmo_catalogo[OF assms c(2) c(1)])
  show ?thesis using c f r unfolding Acima by (simp add: split_beta)
qed simp_all

theorem chamar_nao_muda_catalogo_witness:
  "filmes motor < length [catalogo_empates] \<and>
   snd (chamar motor (Acima None None) [catalogo_empates]) ! filmes motor = catalogo_empates \<and>
   fst (chamar motor (Acima None None) (snd (chamar motor (Acima None None) [catalogo_empates])))
     = fst (chamar motor (Acima None None) [catalogo_empates])"
proof -
  have v: "filmes motor < length [catalogo_empates]" by (simp add: motor_def)
  from chamar_nao_muda_catalogo[OF v, of "Acima None None"] v show ?thesis
    by (simp add: motor_def)
qed

section \<open>No division by zero in the report\<close>

text \<open>
  \<open>exibir_estatisticas_adicionais\<close> has no guard of its own: called on an empty catalogue
  it raises at the division. Its one call site is the end of
  \<open>exibir_estatisticas_completas\<close>, after the guard there.
\<close>

lemma extremos_duracao_total: "\<exists>e. extremos_duracao fs = Inr e"
proof (cases "fs = []")
  case True
  then show ?thesis by (simp add: extremos_duracao_def)
next
  case False
  let ?d = "\<lambda>x. duracao_em_minutos (duracao x)"
  from py_max_key_first[OF False, of ?d] obtain a where a: "py_max_key ?d fs = Inr a" by blast
  from py_min_key_first[OF False, of ?d] obtain b where b: "py_min_key ?d fs = Inr b" by blast
  from False a b show ?thesis by (simp add: extremos_duracao_def bind_err_def)
qed

lemma moda_diretores_total: "\<exists>m. moda_diretores fs = Inr m"
proof (cases "fs = []")
  case True
  then show ?thesis by (simp add: moda_diretores_def)
next
  case False
  then show ?thesis using moda_diretores_valor by blast
qed

lemma calcular_mediana_total: "\<exists>m. calcular_mediana_avaliacao fs = Inr m"
proof (cases "fs = []")
  case True
  then show ?thesis by (simp add: calcular_mediana_avaliacao_def)
next
  case False
  then show ?thesis using mediana_nao_vazia by blast
qed

lemma calcular_media_total: "\<exists>m. calcular_media_avaliacao fs = Inr m"
  by (simp add: calcular_media_avaliacao_def float_truediv_def)

lemma adicionais_vazio: "exibir_estatisticas_adicionais [] = Inl ZeroDivisionError"
  by (simp add: exibir_estatisticas_adicionais_def py_truediv_def bind_err_def)

lemma completas_total:
  assumes "filmes self < length h"
  shows "\<exists>rel. fst (exibir_estatisticas_completas self h) = Inr rel"
proof (cases "h ! filmes self = []")
  case True
  then show ?thesis by (simp add: exibir_estatisticas_completas_def)
next
  case False
  let ?fs = "h ! filmes self"
  let ?h1 = "snd (filmes_acima_avaliacao self None None h)"
  have c: "?h1 ! filmes self = ?fs" using filmes_acima_catalogo[OF assms] by simp
  obtain media where media: "calcular_media_avaliacao ?fs = Inr media"
    using calcular_media_total by blast
  obtain mediana where mediana: "calcular_mediana_avaliacao ?fs = Inr mediana"
    using calcular_mediana_total by blast
  obtain ext where ext: "extremos_duracao ?fs = Inr ext"
    using extremos_duracao_total by blast
  obtain moda where moda: "moda_diretores ?fs = Inr moda"
    using moda_diretores_total by blast
  obtain ad where ad: "exibir_estatisticas_adicionais ?fs = Inr ad"
    using adicionais_total[OF False] by blast
  show ?thesis
    using False media mediana ext moda ad c
    by (simp add: exibir_estatisticas_completas_def split_beta Let_def)
qed

lemma main_total: "\<exists>res. main dados = Inr res"
proof (cases "dados = []")
  case True
  then show ?thesis by (simp add: main_def new_list_def)
next
  case False
  let ?e = "\<lparr>arquivo_json = ''catalogo_filmes.json'', filmes = 0\<rparr>"
  have "filmes ?e < length [dados]" by simp
  from completas_total[OF this] obtain rel where
    "fst (exibir_estatisticas_completas ?e [dados]) = Inr rel" by blast
  then obtain h1 where "exibir_estatisticas_completas ?e [dados] = (Inr rel, h1)"
    by (cases "exibir_estatisticas_completas ?e [dados]") simp
  with False show ?thesis by (simp add: main_def new_list_def split_beta)
qed

text \<open>
  C5. On a catalogue that is not empty the percentage is the number of streaming movies
  over the number of movies, times 100, and no error is raised.
  \<open>exibir_estatisticas_completas\<close> raises nothing on any catalogue: on an empty one it
  returns before any statistic is computed, so the division is not reached with a zero
  divisor. \<open>main\<close> raises nothing on any loaded list, and on the empty one it produces no
  report.
\<close>

theorem porcentagem_sem_divisao_por_zero:
  "(fs \<noteq> [] \<longrightarrow>
      (\<exists>r. exibir_estatisticas_adicionais fs = Inr r \<and>
         porcentagem r = of_nat (length (filter streaming fs)) / of_nat (length fs) * 100)) \<and>
   (filmes self < length h \<longrightarrow>
      (\<exists>rel. fst (exibir_estatisticas_completas self h) = Inr rel) \<and>
      (h ! filmes self = [] \<longrightarrow> exibir_estatisticas_completas self h = (Inr None, h))) \<and>
   (\<exists>res. main dados = Inr res) \<and>
   main [] = Inr None"
proof (intro conjI impI)
  assume ne: "fs \<noteq> []"
  from adicionais_total[OF ne] obtain r where r: "exibir_estatisticas_adicionais fs = Inr r"
    "porcentagem r = of_nat (length (filmes_em_streaming fs)) / of_nat (length fs) * 100"
    by force
  then show "\<exists>r. exibir_estatisticas_adicionais fs = Inr r \<and>
         porcentagem r = of_nat (length (filter streaming fs)) / of_nat (length fs) * 100"
    by (auto simp: filmes_em_streaming_def)
next
  assume "filmes self < length h"
  then show "\<exists>rel. fst (exibir_estatisticas_completas self h) = Inr rel"
    by (rule completas_total)
next
  assume "h ! filmes self = []"
  then show "exibir_estatisticas_completas self h = (Inr None, h)"
    by (simp add: exibir_estatisticas_completas_def)
next
  show "\<exists>res. main dados = Inr res" by (rule main_total)
  show "main [] = Inr None" by (simp add: main_def new_list_def)
qed

theorem porcentagem_sem_divisao_por_zero_witness:
  "catalogo_empates \<noteq> [] \<and> filmes motor < length [catalogo_empates] \<and>
   (\<exists>r. exibir_estatisticas_adicionais catalogo_empates = Inr r \<and> porcentagem r = 50) \<and>
   (\<exists>rel. fst (exibir_estatisticas_completas motor [catalogo_empates]) = Inr rel)"
proof -
  have ne: "catalogo_empates \<noteq> []" by (simp add: catalogo_empates_def)
  have v: "filmes motor < length [catalogo_empates]" by (simp add: motor_def)
  have p: "rat_of_nat (length (filter streaming catalogo_empates))
      / of_nat (length catalogo_empates) * 100 = 50"
    by (simp add: catalogo_empates_def filme_json_def)
  from porcentagem_sem_divisao_por_zero[of catalogo_empates motor "[catalogo_empates]"] ne v
  show ?thesis unfolding p by blast
qed

end
